theory Spec2Isabelle
  imports Main "HOL-Library.Word"
begin

unbundle bit_operations_syntax

section \<open>Exceptions\<close>

text \<open>
  The code throws two C++ exception classes, each with a message. The specification's
  error names map onto them as follows: \<open>InvalidArgument\<close> is
  \<open>std::invalid_argument\<close>; \<open>IOError\<close> is the \<open>std::runtime_error\<close> raised when a
  file cannot be opened; \<open>CorruptData\<close> is the \<open>std::runtime_error\<close> with the message
  "invalid PFM image"; \<open>UnsupportedFormat\<close> is the \<open>std::runtime_error\<close> with the
  message "big-endian PFM images are not supported".

  The third constructor is not an exception. It marks an execution that reads or
  writes a tensor element outside the tensor's buffer: C++ gives such an execution no
  meaning, so the model promises nothing about it.
\<close>

datatype error = runtime_error string | invalid_argument string | undefined_behaviour

definition quote :: char where
  "quote = CHR 0x27"

definition newline :: char where
  "newline = CHR 0x0A"

section \<open>The type \<open>int\<close>\<close>

text \<open>
  An \<open>int\<close> of the code has 32 bits. The model keeps it as a mathematical integer and
  writes the width out: the result of \<open>+\<close>, \<open>-\<close> and \<open>*\<close> is reduced into the range from
  \<open>INT_MIN\<close> to \<open>INT_MAX\<close> in two's complement, which is what the arithmetic
  instructions of x86, the platform of the code, compute. (C++ itself leaves a signed
  overflow undefined.)
\<close>

definition INT_MAX :: int where "INT_MAX = 2147483647"
definition INT_MIN :: int where "INT_MIN = - 2147483648"

definition wrap_int :: "int \<Rightarrow> int" where
  "wrap_int v = (v + 2147483648) mod 4294967296 - 2147483648"

definition int_add :: "int \<Rightarrow> int \<Rightarrow> int" where
  "int_add a b = wrap_int (a + b)"

definition int_sub :: "int \<Rightarrow> int \<Rightarrow> int" where
  "int_sub a b = wrap_int (a - b)"

definition int_mul :: "int \<Rightarrow> int \<Rightarrow> int" where
  "int_mul a b = wrap_int (a * b)"

section \<open>32-bit floats\<close>

text \<open>
  A \<open>float\<close> is its IEEE-754 binary32 bit pattern: that is what \<open>file.read\<close> and
  \<open>file.write\<close> move between memory and the file. Sign test, absolute value and the
  order are functions of the bit pattern and are defined here. Arithmetic, the
  libm functions, the conversions from and to \<open>int\<close> and the conversion of text are
  computed by hardware and library; the record \<open>float_env\<close> takes them as parameters.
\<close>

type_synonym float32 = "32 word"

definition float_is_nan :: "float32 \<Rightarrow> bool" where
  "float_is_nan x = (0x7F800000 < (x AND 0x7FFFFFFF))"

text \<open>Sign and magnitude read as an integer: monotone in the float's value, with
  \<open>-0\<close> and \<open>+0\<close> both at 0.\<close>

definition float_key :: "float32 \<Rightarrow> int" where
  "float_key x = (if bit x 31 then - uint (x AND 0x7FFFFFFF) else uint x)"

definition float_gt :: "float32 \<Rightarrow> float32 \<Rightarrow> bool" where
  "float_gt x y = (\<not> float_is_nan x \<and> \<not> float_is_nan y \<and> float_key y < float_key x)"

definition float_ge :: "float32 \<Rightarrow> float32 \<Rightarrow> bool" where
  "float_ge x y = (\<not> float_is_nan x \<and> \<not> float_is_nan y \<and> float_key y \<le> float_key x)"

definition float_le :: "float32 \<Rightarrow> float32 \<Rightarrow> bool" where
  "float_le x y = float_ge y x"

definition float_lt :: "float32 \<Rightarrow> float32 \<Rightarrow> bool" where
  "float_lt x y = float_gt y x"

definition fabs :: "float32 \<Rightarrow> float32" where
  "fabs x = x AND 0x7FFFFFFF"

text \<open>The float literals of the source, as bit patterns.\<close>

definition f_zero :: float32 where "f_zero = 0x00000000"            \<comment> \<open>\<open>0.f\<close>\<close>
definition f_one :: float32 where "f_one = 0x3F800000"             \<comment> \<open>\<open>1.f\<close>\<close>
definition f_minus_one :: float32 where "f_minus_one = 0xBF800000" \<comment> \<open>\<open>-1.0\<close>\<close>
definition f_2_2 :: float32 where "f_2_2 = 0x400CCCCD"             \<comment> \<open>\<open>2.2f\<close>\<close>
definition f_255 :: float32 where "f_255 = 0x437F0000"             \<comment> \<open>\<open>255.f\<close>\<close>
definition f_key :: float32 where "f_key = 0x3E3851EC"             \<comment> \<open>\<open>0.18f\<close>\<close>
definition f_eps :: float32 where "f_eps = 0x33D6BF95"             \<comment> \<open>\<open>1e-7f\<close>\<close>
definition f_lum_r :: float32 where "f_lum_r = 0x3E59C66D"         \<comment> \<open>\<open>0.212671f\<close>\<close>
definition f_lum_g :: float32 where "f_lum_g = 0x3F3714BA"         \<comment> \<open>\<open>0.715160f\<close>\<close>
definition f_lum_b :: float32 where "f_lum_b = 0x3D93CD57"         \<comment> \<open>\<open>0.072169f\<close>\<close>

text \<open>
  The value of a float, to say which decimal literal a bit pattern stands for. With
  the exponent field \<open>e\<close> and the fraction field \<open>f\<close>, a finite float is
  \<open>(2^23 + f) * 2^(e-150)\<close>, or \<open>f * 2^(-149)\<close> when \<open>e = 0\<close>, and the distance to the
  next float of the same exponent is \<open>2^(e-150)\<close>. \<open>float_units\<close> and \<open>float_ulp\<close> are
  these two numbers in units of \<open>2^(-149)\<close>, where both are integers.
  \<open>float_literal num den x\<close> says that \<open>x\<close> is finite and at most half of that distance
  away from the fraction \<open>num/den\<close>: it is the float a compiler takes for the literal.
\<close>

definition float_exponent :: "float32 \<Rightarrow> nat" where
  "float_exponent x = unat (drop_bit 23 x AND 0xFF)"

definition float_fraction :: "float32 \<Rightarrow> nat" where
  "float_fraction x = unat (x AND 0x7FFFFF)"

definition float_units :: "float32 \<Rightarrow> int" where
  "float_units x =
     (let m = (if float_exponent x = 0 then int (float_fraction x)
               else (8388608 + int (float_fraction x)) * 2 ^ (float_exponent x - 1))
      in if bit x 31 then - m else m)"

definition float_ulp :: "float32 \<Rightarrow> int" where
  "float_ulp x = 2 ^ (float_exponent x - 1)"

definition float_literal :: "int \<Rightarrow> int \<Rightarrow> float32 \<Rightarrow> bool" where
  "float_literal num den x =
     (float_exponent x < 255 \<and> 2 * \<bar>float_units x * den - num * 2 ^ 149\<bar> \<le> float_ulp x * den)"

record float_env =
  fadd :: "float32 \<Rightarrow> float32 \<Rightarrow> float32"      \<comment> \<open>\<open>x + y\<close>\<close>
  fmul :: "float32 \<Rightarrow> float32 \<Rightarrow> float32"      \<comment> \<open>\<open>x * y\<close>\<close>
  fdiv :: "float32 \<Rightarrow> float32 \<Rightarrow> float32"      \<comment> \<open>\<open>x / y\<close>\<close>
  flog2 :: "float32 \<Rightarrow> float32"                \<comment> \<open>\<open>std::log2\<close>\<close>
  fexp2 :: "float32 \<Rightarrow> float32"                \<comment> \<open>\<open>std::exp2\<close>\<close>
  fpow :: "float32 \<Rightarrow> float32 \<Rightarrow> float32"      \<comment> \<open>\<open>pow\<close>\<close>
  int_to_float :: "int \<Rightarrow> float32"             \<comment> \<open>\<open>float(n)\<close>\<close>
  float_to_int :: "float32 \<Rightarrow> int"             \<comment> \<open>\<open>int(x)\<close>\<close>
  strtof :: "string \<Rightarrow> float32 option"         \<comment> \<open>text to float, \<open>None\<close> if not a number\<close>
  uninit :: float32                             \<comment> \<open>content of an uninitialised \<open>float\<close>\<close>

subsection \<open>A float in memory\<close>

text \<open>Four bytes, least significant first (the host is little-endian).\<close>

definition float_to_bytes :: "float32 \<Rightarrow> string" where
  "float_to_bytes x = map (\<lambda>k. char_of (unat x div 256 ^ k)) [0, 1, 2, 3]"

definition float_of_bytes :: "string \<Rightarrow> float32" where
  "float_of_bytes cs = word_of_nat (foldr (\<lambda>c r. of_char c + 256 * r) cs 0)"

section \<open>Tensor\<close>

text \<open>
  Modelled from the spec: \<open>common/tensor.h\<close> is not among the sources. The
  specification describes the tensor as a fixed-shape numeric buffer over float32 with
  an axis-order tag and element count \<open>dims[0]*dims[1]*dims[2]\<close>. The constructor
  checks nothing; a fresh buffer holds zeros.
\<close>

record Tensor =
  dims :: "int list"
  format :: string
  data :: "float32 list"

definition Tensor_new :: "int list \<Rightarrow> string \<Rightarrow> Tensor" where
  "Tensor_new ds fmt = \<lparr>dims = ds, format = fmt, data = replicate (nat (prod_list ds)) 0\<rparr>"

definition ndims :: "Tensor \<Rightarrow> int" where
  "ndims t = int (length (dims t))"

text \<open>
  Modelled from the spec: \<open>operator[]\<close> of \<open>common/tensor.h\<close> is not among the
  sources. \<open>image[i]\<close> for an \<open>int\<close> \<open>i\<close>, read and written, on the buffer of the
  specification: it has the elements \<open>0\<close> to \<open>length (data t) - 1\<close>; any other index, a
  negative one included, is outside the buffer and the result is \<open>None\<close>.
\<close>

definition tensor_get :: "Tensor \<Rightarrow> int \<Rightarrow> float32 option" where
  "tensor_get t i =
     (if 0 \<le> i \<and> i < int (length (data t)) then Some (data t ! nat i) else None)"

definition tensor_set :: "Tensor \<Rightarrow> int \<Rightarrow> float32 \<Rightarrow> Tensor option" where
  "tensor_set t i v =
     (if 0 \<le> i \<and> i < int (length (data t)) then Some (t\<lparr>data := (data t)[nat i := v]\<rparr>)
      else None)"

text \<open>The invariant of the specification's data model: \<open>H>0\<close>, \<open>W>0\<close>, \<open>C\<close> is 1 or 3, and
  the buffer holds \<open>H*W*C\<close> elements.\<close>

definition tensor_invariant :: "Tensor \<Rightarrow> bool" where
  "tensor_invariant t =
     (case dims t of
        [H, W, C] \<Rightarrow> 0 < H \<and> 0 < W \<and> (C = 1 \<or> C = 3) \<and> length (data t) = nat (H * W * C)
      | _ \<Rightarrow> False)"

section \<open>Files and streams\<close>

text \<open>
  A file system gives the content of each path that can be opened for reading and says
  which paths can be opened for writing.
\<close>

record filesystem =
  contents :: "string \<Rightarrow> string option"
  writable :: "string \<Rightarrow> bool"

text \<open>
  \<open>std::ifstream\<close>: the bytes not yet read and the two state bits the code depends on.
  The operations below follow the C++ standard library: formatted extraction skips
  leading white space, sets \<open>failbit\<close> when nothing can be extracted and \<open>eofbit\<close> when
  it runs into the end of the file; once the stream is not \<open>good()\<close>, every operation
  sets \<open>failbit\<close> and extracts nothing.
\<close>

record istream =
  buf :: string
  failbit :: bool
  eofbit :: bool

definition istream_open :: "string \<Rightarrow> istream" where
  "istream_open bytes = \<lparr>buf = bytes, failbit = False, eofbit = False\<rparr>"

definition good :: "istream \<Rightarrow> bool" where
  "good s = (\<not> failbit s \<and> \<not> eofbit s)"

definition isspace :: "char \<Rightarrow> bool" where
  "isspace c = (c = CHR 0x20 \<or> c = CHR 0x09 \<or> c = CHR 0x0A \<or> c = CHR 0x0B \<or> c = CHR 0x0C \<or> c = CHR 0x0D)"

definition isdigit :: "char \<Rightarrow> bool" where
  "isdigit c = (48 \<le> (of_char c :: nat) \<and> (of_char c :: nat) \<le> 57)"

definition sentry :: "istream \<Rightarrow> bool \<times> istream" where
  "sentry s =
     (if \<not> good s then (False, s\<lparr>failbit := True\<rparr>)
      else let r = dropWhile isspace (buf s) in
        if r = [] then (False, s\<lparr>buf := [], failbit := True, eofbit := True\<rparr>)
        else (True, s\<lparr>buf := r\<rparr>))"

text \<open>\<open>file >> id\<close> for a \<open>std::string\<close> that was empty before.\<close>

definition get_string :: "istream \<Rightarrow> string \<times> istream" where
  "get_string s =
     (case sentry s of
        (False, s') \<Rightarrow> ([], s')
      | (True, s') \<Rightarrow>
          let r = dropWhile (\<lambda>c. \<not> isspace c) (buf s')
          in (takeWhile (\<lambda>c. \<not> isspace c) (buf s'), s'\<lparr>buf := r, eofbit := (r = [])\<rparr>))"

definition digit_value :: "char \<Rightarrow> int" where
  "digit_value c = int (of_char c) - 48"

definition decimal_value :: "string \<Rightarrow> int" where
  "decimal_value ds = foldl (\<lambda>v c. 10 * v + digit_value c) 0 ds"

definition is_sign :: "char \<Rightarrow> bool" where
  "is_sign c = (c = CHR ''+'' \<or> c = CHR ''-'')"

text \<open>
  \<open>file >> W\<close> for an \<open>int\<close>: an optional sign and decimal digits. Without a digit, or
  with a value outside the range of \<open>int\<close>, \<open>failbit\<close> is set. The value returned with
  \<open>failbit\<close> set is never used by the callers below: they throw first.
\<close>

definition get_int :: "istream \<Rightarrow> int \<times> istream" where
  "get_int s =
     (case sentry s of
        (False, s') \<Rightarrow> (0, s')
      | (True, s') \<Rightarrow>
          let cs = buf s';
              signed = (case cs of [] \<Rightarrow> False | c # _ \<Rightarrow> is_sign c);
              negative = (case cs of [] \<Rightarrow> False | c # _ \<Rightarrow> c = CHR ''-'');
              cs1 = (if signed then tl cs else cs);
              ds = takeWhile isdigit cs1;
              r = dropWhile isdigit cs1;
              v = (if negative then - decimal_value ds else decimal_value ds);
              s'' = s'\<lparr>buf := r, eofbit := (r = [])\<rparr>
          in if ds = [] then (0, s''\<lparr>failbit := True\<rparr>)
             else if v < INT_MIN then (INT_MIN, s''\<lparr>failbit := True\<rparr>)
             else if INT_MAX < v then (INT_MAX, s''\<lparr>failbit := True\<rparr>)
             else (v, s''))"

text \<open>
  The characters \<open>file >> scale\<close> takes for a \<open>float\<close>: an optional sign, digits, an
  optional point with digits, and after at least one digit an optional exponent. The
  result is the token and the rest of the input.
\<close>

definition float_token :: "string \<Rightarrow> string \<times> string" where
  "float_token cs =
     (let sgn = (case cs of [] \<Rightarrow> [] | c # _ \<Rightarrow> if is_sign c then [c] else []);
          r0 = drop (length sgn) cs;
          ip = takeWhile isdigit r0;
          r1 = dropWhile isdigit r0;
          pt = (case r1 of [] \<Rightarrow> [] | c # r \<Rightarrow> if c = CHR ''.'' then c # takeWhile isdigit r else []);
          r2 = drop (length pt) r1;
          has_digit = (ip \<noteq> [] \<or> 1 < length pt);
          ex = (case r2 of [] \<Rightarrow> []
                | c # r \<Rightarrow>
                    if has_digit \<and> (c = CHR ''e'' \<or> c = CHR ''E'') then
                      (let es = (case r of [] \<Rightarrow> [] | d # _ \<Rightarrow> if is_sign d then [d] else [])
                       in c # es @ takeWhile isdigit (drop (length es) r))
                    else []);
          r3 = drop (length ex) r2
      in (sgn @ ip @ pt @ ex, r3))"

definition get_float :: "float_env \<Rightarrow> istream \<Rightarrow> float32 \<times> istream" where
  "get_float env s =
     (case sentry s of
        (False, s') \<Rightarrow> (f_zero, s')
      | (True, s') \<Rightarrow>
          (case float_token (buf s') of
             (tok, r) \<Rightarrow>
               let s'' = s'\<lparr>buf := r, eofbit := (r = [])\<rparr>
               in (case strtof env tok of
                     None \<Rightarrow> (f_zero, s''\<lparr>failbit := True\<rparr>)
                   | Some v \<Rightarrow> (v, s''))))"

text \<open>\<open>file.get()\<close>, the character itself dropped.\<close>

definition istream_get :: "istream \<Rightarrow> istream" where
  "istream_get s =
     (if \<not> good s then s\<lparr>failbit := True\<rparr>
      else case buf s of
             [] \<Rightarrow> s\<lparr>failbit := True, eofbit := True\<rparr>
           | _ # cs \<Rightarrow> s\<lparr>buf := cs\<rparr>)"

text \<open>
  \<open>file.read(dst, n)\<close>: \<open>dst\<close> is the content of the destination before the call, the
  result its content after. A short read stores what there is and sets both bits.
\<close>

definition istream_read :: "istream \<Rightarrow> nat \<Rightarrow> string \<Rightarrow> string \<times> istream" where
  "istream_read s n dst =
     (if \<not> good s then (dst, s\<lparr>failbit := True\<rparr>)
      else if length (buf s) < n then
        (buf s @ drop (length (buf s)) dst, s\<lparr>buf := [], failbit := True, eofbit := True\<rparr>)
      else (take n (buf s), s\<lparr>buf := drop n (buf s)\<rparr>))"

text \<open>\<open>file << n\<close> for an \<open>int\<close>.\<close>

fun decimal_digits :: "nat \<Rightarrow> string" where
  "decimal_digits n =
     (if n < 10 then [char_of (48 + n)]
      else decimal_digits (n div 10) @ [char_of (48 + n mod 10)])"

declare decimal_digits.simps [simp del]

definition put_int :: "int \<Rightarrow> string" where
  "put_int n = (if n < 0 then CHR ''-'' # decimal_digits (nat (- n)) else decimal_digits (nat n))"

section \<open>The simple-float codec (PFM)\<close>

text \<open>Lines 79 to 93 of \<open>loadImagePFM\<close>: the magic and the three tokens after it.\<close>

definition pfm_tokens :: "float_env \<Rightarrow> istream \<Rightarrow> error + (int \<times> int \<times> int \<times> float32 \<times> istream)" where
  "pfm_tokens env s0 =
     (case get_string s0 of
        (ident, s1) \<Rightarrow>
          if ident \<noteq> ''PF'' \<and> ident \<noteq> ''Pf'' then Inl (runtime_error ''invalid PFM image'')
          else
            (let C = (if ident = ''PF'' then 3 else 1) in
             case get_int s1 of
               (W, s2) \<Rightarrow>
                 (case get_int s2 of
                    (H, s3) \<Rightarrow>
                      (case get_float env s3 of
                         (scale, s4) \<Rightarrow> Inr (C, W, H, scale, s4)))))"

text \<open>Lines 79 to 98: the tokens, the byte after them and the check of the stream.\<close>

definition pfm_header :: "float_env \<Rightarrow> istream \<Rightarrow> error + (int \<times> int \<times> int \<times> float32 \<times> istream)" where
  "pfm_header env s0 =
     (case pfm_tokens env s0 of
        Inl e \<Rightarrow> Inl e
      | Inr (C, W, H, scale, s4) \<Rightarrow>
          (let s5 = istream_get s4 in
           if failbit s5 then Inl (runtime_error ''invalid PFM image'')
           else Inr (C, W, H, scale, s5)))"

text \<open>
  The element index of lines 115 and 151, \<open>((H-1-h)*W + w) * C + c\<close>, every operation
  in \<open>int\<close>. The loop counters are below \<open>H\<close>, \<open>W\<close> and \<open>C\<close>, which are \<open>int\<close>s.
\<close>

definition pfm_index :: "int \<Rightarrow> int \<Rightarrow> int \<Rightarrow> nat \<Rightarrow> nat \<Rightarrow> nat \<Rightarrow> int" where
  "pfm_index H W C h w c =
     int_add (int_mul (int_add (int_mul (int_sub (int_sub H 1) (int h)) W) (int w)) C) (int c)"

text \<open>
  The body of the innermost loop, lines 113 to 115: four bytes are read into the
  uninitialised \<open>x\<close>, and \<open>x * scale\<close> is stored at the index. The loops have no exit
  but their bounds, so an iteration passes on the state it gets; a store outside the
  buffer ends in \<open>undefined_behaviour\<close>, and so does every iteration after it.
\<close>

definition pfm_read_sample ::
  "float_env \<Rightarrow> int \<Rightarrow> int \<Rightarrow> int \<Rightarrow> float32 \<Rightarrow> nat \<Rightarrow> nat \<Rightarrow> nat
   \<Rightarrow> error + istream \<times> Tensor \<Rightarrow> error + istream \<times> Tensor" where
  "pfm_read_sample env H W C scale h w c st =
     (case st of
        Inl e \<Rightarrow> Inl e
      | Inr (s, img) \<Rightarrow>
          (case istream_read s 4 (float_to_bytes (uninit env)) of
             (xb, s') \<Rightarrow>
               (case tensor_set img (pfm_index H W C h w c) (fmul env (float_of_bytes xb) scale) of
                  None \<Rightarrow> Inl undefined_behaviour
                | Some img' \<Rightarrow> Inr (s', img'))))"

text \<open>The three nested loops, lines 107 to 118.\<close>

definition pfm_read_pixels ::
  "float_env \<Rightarrow> int \<Rightarrow> int \<Rightarrow> int \<Rightarrow> float32 \<Rightarrow> istream \<times> Tensor \<Rightarrow> error + istream \<times> Tensor" where
  "pfm_read_pixels env H W C scale st =
     fold (\<lambda>h. fold (\<lambda>w. fold (\<lambda>c. pfm_read_sample env H W C scale h w c)
       [0..<nat C]) [0..<nat W]) [0..<nat H] (Inr st)"

text \<open>\<open>loadImagePFM\<close> from line 78 on, on the bytes of the opened file.\<close>

definition pfm_decode :: "float_env \<Rightarrow> string \<Rightarrow> error + Tensor" where
  "pfm_decode env bytes =
     (case pfm_header env (istream_open bytes) of
        Inl e \<Rightarrow> Inl e
      | Inr (C, W, H, scale0, s) \<Rightarrow>
          if float_ge scale0 f_zero
          then Inl (runtime_error ''big-endian PFM images are not supported'')
          else
            (let scale = fabs scale0 in
             case pfm_read_pixels env H W C scale (s, Tensor_new [H, W, C] ''hwc'') of
               Inl e \<Rightarrow> Inl e
             | Inr (s', img) \<Rightarrow>
                 if failbit s' then Inl (runtime_error ''invalid PFM image'')
                 else Inr img))"

definition loadImagePFM :: "float_env \<Rightarrow> filesystem \<Rightarrow> string \<Rightarrow> error + Tensor" where
  "loadImagePFM env fs filename =
     (case contents fs filename of
        None \<Rightarrow> Inl (runtime_error (''cannot open file '' @ [quote] @ filename @ [quote]))
      | Some bytes \<Rightarrow> pfm_decode env bytes)"

text \<open>The shape check shared by the encoders (lines 128 and 160).\<close>

definition bad_shape :: "Tensor \<Rightarrow> bool" where
  "bad_shape img = (ndims img \<noteq> 3 \<or> dims img ! 2 \<noteq> 3 \<or> format img \<noteq> ''hwc'')"

text \<open>
  The body of the innermost loop of \<open>saveImagePFM\<close>, lines 151 and 152: the element at
  the index is read and its four bytes are appended to the file.
\<close>

definition pfm_write_sample ::
  "Tensor \<Rightarrow> int \<Rightarrow> int \<Rightarrow> int \<Rightarrow> nat \<Rightarrow> nat \<Rightarrow> nat \<Rightarrow> error + string \<Rightarrow> error + string" where
  "pfm_write_sample img H W C h w c st =
     (case st of
        Inl e \<Rightarrow> Inl e
      | Inr file \<Rightarrow>
          (case tensor_get img (pfm_index H W C h w c) of
             None \<Rightarrow> Inl undefined_behaviour
           | Some x \<Rightarrow> Inr (file @ float_to_bytes x)))"

text \<open>What \<open>saveImagePFM\<close> writes to the opened file, lines 139 to 155.\<close>

definition pfm_encode :: "Tensor \<Rightarrow> error + string" where
  "pfm_encode img =
     (let H = dims img ! 0; W = dims img ! 1; C = dims img ! 2;
          header = ''PF'' @ [newline] @ put_int W @ '' '' @ put_int H @ [newline]
                   @ ''-1.0'' @ [newline]
      in fold (\<lambda>h. fold (\<lambda>w. fold (\<lambda>c. pfm_write_sample img H W C h w c)
               [0..<3]) [0..<nat W]) [0..<nat H] (Inr header))"

definition saveImagePFM :: "filesystem \<Rightarrow> Tensor \<Rightarrow> string \<Rightarrow> error + filesystem" where
  "saveImagePFM fs img filename =
     (if bad_shape img then Inl (invalid_argument ''image must have 3 channels'')
      else if \<not> writable fs filename
      then Inl (runtime_error (''cannot open file: '' @ [quote] @ filename @ [quote]))
      else case pfm_encode img of
             Inl e \<Rightarrow> Inl e
           | Inr bytes \<Rightarrow> Inr (fs\<lparr>contents := (contents fs)(filename := Some bytes)\<rparr>))"

section \<open>The byte codec (PPM)\<close>

text \<open>Lines 181 to 184: one sample to one byte.\<close>

definition ppm_channel :: "float_env \<Rightarrow> float32 \<Rightarrow> int" where
  "ppm_channel env x0 =
     (let x = fpow env x0 (fdiv env f_one f_2_2)
      in min (max (float_to_int env (fmul env x f_255)) 0) 255)"

text \<open>The body of the inner loop, lines 181 to 184, with the index \<open>i*C+c\<close> in \<open>int\<close>.\<close>

definition ppm_write_sample ::
  "float_env \<Rightarrow> Tensor \<Rightarrow> int \<Rightarrow> nat \<Rightarrow> nat \<Rightarrow> error + string \<Rightarrow> error + string" where
  "ppm_write_sample env img C i c st =
     (case st of
        Inl e \<Rightarrow> Inl e
      | Inr file \<Rightarrow>
          (case tensor_get img (int_add (int_mul (int i) C) (int c)) of
             None \<Rightarrow> Inl undefined_behaviour
           | Some x \<Rightarrow> Inr (file @ [char_of (nat (ppm_channel env x))])))"

text \<open>What \<open>saveImagePPM\<close> writes to the opened file, lines 172 to 186; the loop runs
  while \<open>i < W*H\<close>, the product in \<open>int\<close>.\<close>

definition ppm_encode :: "float_env \<Rightarrow> Tensor \<Rightarrow> error + string" where
  "ppm_encode env img =
     (let H = dims img ! 0; W = dims img ! 1; C = dims img ! 2;
          header = ''P6'' @ [newline] @ put_int W @ '' '' @ put_int H @ [newline]
                   @ ''255'' @ [newline]
      in fold (\<lambda>i. fold (\<lambda>c. ppm_write_sample env img C i c) [0..<3])
           [0..<nat (int_mul W H)] (Inr header))"

definition saveImagePPM :: "float_env \<Rightarrow> filesystem \<Rightarrow> Tensor \<Rightarrow> string \<Rightarrow> error + filesystem" where
  "saveImagePPM env fs img filename =
     (if bad_shape img then Inl (invalid_argument ''image must have 3 channels'')
      else if \<not> writable fs filename
      then Inl (runtime_error (''cannot open file: '' @ [quote] @ filename @ [quote]))
      else case ppm_encode env img of
             Inl e \<Rightarrow> Inl e
           | Inr bytes \<Rightarrow> Inr (fs\<lparr>contents := (contents fs)(filename := Some bytes)\<rparr>))"

section \<open>Dispatch on the file extension\<close>

text \<open>\<open>std::string::rfind\<close> of a character: the last index holding it.\<close>

definition rfind :: "string \<Rightarrow> char \<Rightarrow> nat option" where
  "rfind s c =
     (if c \<in> set s then Some (length s - 1 - length (takeWhile (\<lambda>x. x \<noteq> c) (rev s)))
      else None)"

definition fileExtensionOf :: "string \<Rightarrow> error + string" where
  "fileExtensionOf filename =
     (case rfind filename (CHR ''.'') of
        None \<Rightarrow> Inl (invalid_argument ''filename has no extension'')
      | Some index \<Rightarrow> Inr (drop (index + 1) filename))"

text \<open>
  The EXR codec exists only when the code is compiled with \<open>HAS_OPEN_EXR\<close>, and it is
  the OpenEXR library that reads and writes the file: the build is a parameter, either
  \<open>None\<close> or the two functions.
\<close>

type_synonym exr_codec =
  "(filesystem \<Rightarrow> string \<Rightarrow> error + Tensor) \<times> (filesystem \<Rightarrow> Tensor \<Rightarrow> string \<Rightarrow> error + filesystem)"

definition loadImage :: "exr_codec option \<Rightarrow> float_env \<Rightarrow> filesystem \<Rightarrow> string \<Rightarrow> error + Tensor" where
  "loadImage exr env fs filename =
     (case fileExtensionOf filename of
        Inl e \<Rightarrow> Inl e
      | Inr fmt \<Rightarrow>
          (case (if fmt = ''exr'' then exr else None) of
             Some (loadImageEXR, saveImageEXR) \<Rightarrow> loadImageEXR fs filename
           | None \<Rightarrow>
               if fmt = ''pfm'' then loadImagePFM env fs filename
               else Inl (invalid_argument ''image format is not supported'')))"

definition saveImage ::
  "exr_codec option \<Rightarrow> float_env \<Rightarrow> filesystem \<Rightarrow> Tensor \<Rightarrow> string \<Rightarrow> error + filesystem" where
  "saveImage exr env fs img filename =
     (case fileExtensionOf filename of
        Inl e \<Rightarrow> Inl e
      | Inr fmt \<Rightarrow>
          (case (if fmt = ''exr'' then exr else None) of
             Some (loadImageEXR, saveImageEXR) \<Rightarrow> saveImageEXR fs img filename
           | None \<Rightarrow>
               if fmt = ''pfm'' then saveImagePPM env fs img filename
               else Inl (invalid_argument ''image format is not supported'')))"

section \<open>The exposure estimate\<close>

text \<open>
  Modelled from the spec: the type \<open>Data2D\<close> is not among the sources. The
  specification describes the input as a read-only grid of \<open>height \<times> width\<close> pixels, each
  addressable and exposing three consecutive float channel values. \<open>get input h w k\<close> is
  channel \<open>k\<close> of the pixel in row \<open>h\<close> and column \<open>w\<close>. The \<open>assert\<close> on the
  pixel format is compiled out of a release build, and the specification leaves the
  format to the caller; the type holds three-channel float views only.
\<close>

record Data2D =
  height :: int
  width :: int
  get :: "nat \<Rightarrow> nat \<Rightarrow> nat \<Rightarrow> float32"

definition luminance :: "float_env \<Rightarrow> float32 \<Rightarrow> float32 \<Rightarrow> float32 \<Rightarrow> float32" where
  "luminance env r g b =
     fadd env (fadd env (fmul env f_lum_r r) (fmul env f_lum_g g)) (fmul env f_lum_b b)"

text \<open>
  \<open>tbb::parallel_reduce\<close> in its functional form over a \<open>blocked_range\<close>: the range is
  cut into consecutive non-empty subranges, the body folds each of them starting from
  the identity, and the partial results are joined, left operand first. Where the
  range is cut is the scheduler's choice; it is the parameter of type \<open>partition\<close>.
  \<open>Split k l r\<close> cuts \<open>k\<close> rows off the front when that leaves two non-empty parts.
  A body that goes on to the next subrange with its running value is the same as one
  chunk over both, since the body is a loop over the rows.
\<close>

datatype partition = Chunk | Split nat partition partition

fun parallel_reduce ::
  "partition \<Rightarrow> nat \<Rightarrow> nat \<Rightarrow> 'v \<Rightarrow> (nat \<Rightarrow> nat \<Rightarrow> 'v \<Rightarrow> 'v) \<Rightarrow> ('v \<Rightarrow> 'v \<Rightarrow> 'v) \<Rightarrow> 'v" where
  "parallel_reduce Chunk b e identity body join = body b e identity"
| "parallel_reduce (Split k l r) b e identity body join =
     (if 0 < k \<and> b + k < e
      then join (parallel_reduce l b (b + k) identity body join)
                (parallel_reduce r (b + k) e identity body join)
      else body b e identity)"

type_synonym Sum = "float32 \<times> int"

text \<open>Lines 43 to 50: one pixel. The count is the \<open>int\<close> of \<open>std::pair<float, int>\<close>.\<close>

definition accumulate :: "float_env \<Rightarrow> Data2D \<Rightarrow> nat \<Rightarrow> nat \<Rightarrow> Sum \<Rightarrow> Sum" where
  "accumulate env input h w acc =
     (let L = luminance env (get input h w 0) (get input h w 1) (get input h w 2)
      in if float_gt L f_eps then (fadd env (fst acc) (flog2 env L), int_add (snd acc) 1) else acc)"

text \<open>Lines 37 to 54: the body of the reduction on the rows from \<open>b\<close> up to \<open>e\<close>.\<close>

definition reduce_body :: "float_env \<Rightarrow> Data2D \<Rightarrow> nat \<Rightarrow> nat \<Rightarrow> Sum \<Rightarrow> Sum" where
  "reduce_body env input b e acc =
     fold (\<lambda>h. fold (\<lambda>w. accumulate env input h w) [0..<nat (width input)]) [b..<e] acc"

definition reduce_join :: "float_env \<Rightarrow> Sum \<Rightarrow> Sum \<Rightarrow> Sum" where
  "reduce_join env a b = (fadd env (fst a) (fst b), int_add (snd a) (snd b))"

definition autoexposure :: "float_env \<Rightarrow> partition \<Rightarrow> Data2D \<Rightarrow> float32" where
  "autoexposure env part input =
     (let acc = parallel_reduce part 0 (nat (height input)) (f_zero, 0)
                  (reduce_body env input) (reduce_join env)
      in if 0 < snd acc
         then fdiv env f_key (fexp2 env (fdiv env (fst acc) (int_to_float env (snd acc))))
         else f_one)"

subsection \<open>The estimate in the specification's words\<close>

text \<open>
  The luminance of the pixel at \<open>(h, w)\<close> as the specification gives it,
  \<open>0.212671*R + 0.715160*G + 0.072169*B\<close> with \<open>R\<close>, \<open>G\<close>, \<open>B\<close> the three channels of the
  pixel, the products and sums in floats and taken from left to right. Then the
  luminances of the rows from \<open>b\<close> up to \<open>e\<close> in row-major order, and among them those
  above the epsilon.
\<close>

definition pixel_luminance :: "float_env \<Rightarrow> Data2D \<Rightarrow> nat \<Rightarrow> nat \<Rightarrow> float32" where
  "pixel_luminance env input h w =
     fadd env (fadd env (fmul env f_lum_r (get input h w 0))
                        (fmul env f_lum_g (get input h w 1)))
              (fmul env f_lum_b (get input h w 2))"

definition luminances :: "float_env \<Rightarrow> Data2D \<Rightarrow> nat \<Rightarrow> nat \<Rightarrow> float32 list" where
  "luminances env input b e =
     concat (map (\<lambda>h. map (\<lambda>w. pixel_luminance env input h w) [0..<nat (width input)]) [b..<e])"

definition bright :: "float_env \<Rightarrow> Data2D \<Rightarrow> nat \<Rightarrow> nat \<Rightarrow> float32 list" where
  "bright env input b e = filter (\<lambda>L. float_gt L f_eps) (luminances env input b e)"

text \<open>
  The sum of \<open>log2 L\<close> over the bright pixels. Float addition is not associative, so the
  sum is taken in the order of the reduction: within a chunk from \<open>0.f\<close> on, pixel after
  pixel, and chunk sums added as the partition joins them.
\<close>

definition chunk_log_sum :: "float_env \<Rightarrow> Data2D \<Rightarrow> nat \<Rightarrow> nat \<Rightarrow> float32" where
  "chunk_log_sum env input b e = foldl (fadd env) f_zero (map (flog2 env) (bright env input b e))"

fun log_sum :: "float_env \<Rightarrow> Data2D \<Rightarrow> partition \<Rightarrow> nat \<Rightarrow> nat \<Rightarrow> float32" where
  "log_sum env input Chunk b e = chunk_log_sum env input b e"
| "log_sum env input (Split k l r) b e =
     (if 0 < k \<and> b + k < e
      then fadd env (log_sum env input l b (b + k)) (log_sum env input r (b + k) e)
      else chunk_log_sum env input b e)"

definition bright_count :: "float_env \<Rightarrow> Data2D \<Rightarrow> int" where
  "bright_count env input = int (length (bright env input 0 (nat (height input))))"

section \<open>Notions used in the statements and proofs\<close>

text \<open>The update of the running pair by one pixel of luminance \<open>L\<close>.\<close>

definition tally :: "float_env \<Rightarrow> float32 \<Rightarrow> Sum \<Rightarrow> Sum" where
  "tally env L acc =
     (if float_gt L f_eps then (fadd env (fst acc) (flog2 env L), int_add (snd acc) 1) else acc)"

text \<open>The \<open>k\<close>-th float of a byte sequence.\<close>

definition sample_at :: "string \<Rightarrow> nat \<Rightarrow> float32" where
  "sample_at bytes k = float_of_bytes (take 4 (drop (4 * k) bytes))"

text \<open>A buffer with the elements from \<open>pos\<close> on replaced by \<open>vs\<close>.\<close>

definition write_seg :: "'a list \<Rightarrow> nat \<Rightarrow> 'a list \<Rightarrow> 'a list" where
  "write_seg d pos vs = take pos d @ vs @ drop (pos + length vs) d"

text \<open>The first \<open>n\<close> floats of a byte sequence, each multiplied by \<open>scale\<close>.\<close>

definition decoded :: "float_env \<Rightarrow> float32 \<Rightarrow> string \<Rightarrow> nat \<Rightarrow> float32 list" where
  "decoded env scale bytes n = map (\<lambda>k. fmul env (sample_at bytes k) scale) [0..<n]"

text \<open>The offset of element \<open>(h, w, c)\<close> in a row-major buffer of rows of \<open>W\<close> pixels of
  \<open>C\<close> channels.\<close>

definition hwc_index :: "nat \<Rightarrow> nat \<Rightarrow> nat \<Rightarrow> nat \<Rightarrow> nat \<Rightarrow> nat" where
  "hwc_index W C h w c = (h * W + w) * C + c"

text \<open>The stream after one \<open>file.read\<close> of four bytes.\<close>

definition after_read :: "istream \<Rightarrow> istream" where
  "after_read s = snd (istream_read s 4 [])"

text \<open>
  One iteration of the decoder's loops that stores at the element \<open>i\<close> of the buffer,
  and the three loops with the element index written in natural numbers. The proofs
  show that the decoder is these loops as long as no index leaves the range of \<open>int\<close>.
\<close>

definition read_store ::
  "float_env \<Rightarrow> float32 \<Rightarrow> nat \<Rightarrow> istream \<times> Tensor \<Rightarrow> istream \<times> Tensor" where
  "read_store env scale i st =
     (case st of
        (s, img) \<Rightarrow>
          (case istream_read s 4 (float_to_bytes (uninit env)) of
             (xb, s') \<Rightarrow>
               (s', img\<lparr>data := (data img)[i := fmul env (float_of_bytes xb) scale]\<rparr>)))"

definition read_store_all ::
  "float_env \<Rightarrow> nat \<Rightarrow> nat \<Rightarrow> nat \<Rightarrow> float32 \<Rightarrow> istream \<times> Tensor \<Rightarrow> istream \<times> Tensor" where
  "read_store_all env H W C scale st =
     fold (\<lambda>h. fold (\<lambda>w. fold (\<lambda>c.
         read_store env scale ((H - 1 - h) * (W * C) + w * C + c))
       [0..<C]) [0..<W]) [0..<H] st"

text \<open>The content of the file \<open>name\<close> after a save, \<open>None\<close> if the save threw.\<close>

definition written :: "error + filesystem \<Rightarrow> string \<Rightarrow> string option" where
  "written result name = (case result of Inl e \<Rightarrow> None | Inr fs \<Rightarrow> contents fs name)"

section \<open>Example inputs\<close>

text \<open>
  A float environment for the examples. Each entry is the IEEE-754 binary32 result at
  the arguments named (\<open>x * 1 = x\<close>, \<open>0 + y = y\<close>, \<open>log2 1 = 0\<close>, \<open>pow(+inf, y) = +inf\<close>
  for \<open>y > 0\<close>, \<open>0 / y = 0\<close>, \<open>float(2147488281) = 2147488256\<close> and so on); the examples
  use no other arguments, and for those the entry is \<open>0\<close>. One entry is not fixed by
  C++: \<open>int(x)\<close> for \<open>x = +inf\<close> has no defined result; the entry is what the
  conversion instruction of x86, the platform of the code, returns for every value
  outside the range of \<open>int\<close>.
\<close>

definition f_two :: float32 where "f_two = 0x40000000"    \<comment> \<open>\<open>2.f\<close>\<close>
definition f_half :: float32 where "f_half = 0x3F000000"  \<comment> \<open>\<open>0.5f\<close>\<close>
definition f_inf :: float32 where "f_inf = 0x7F800000"    \<comment> \<open>\<open>+infinity\<close>\<close>

definition example_env :: float_env where
  "example_env =
     \<lparr>fadd = (\<lambda>x y. if x = f_zero then y else if y = f_zero then x
                    else if x = f_lum_r \<and> y = f_lum_g then 0x3F6D8655
                    else if x = 0x3F6D8655 \<and> y = f_lum_b then f_one
                    else f_zero),
      fmul = (\<lambda>x y. if y = f_one then x else if x = f_one then y
                    else if x = f_inf \<and> y = f_255 then f_inf
                    else f_zero),
      fdiv = (\<lambda>x y. if y = f_one then x
                    else if x = f_one \<and> y = f_2_2 then 0x3EE8BA2E
                    else f_zero),
      flog2 = (\<lambda>x. if x = f_two then f_one else f_zero),
      fexp2 = (\<lambda>x. if x = f_zero then f_one else if x = f_one then f_two else f_zero),
      fpow = (\<lambda>x y. if x = f_one then f_one else if x = f_inf then f_inf else f_zero),
      int_to_float = (\<lambda>n. if n = 1 then f_one else if n = 2 then f_two
                          else if n = 2147488281 then 0x4F000012 else f_zero),
      float_to_int = (\<lambda>x. if x = f_255 then 255 else if x = f_inf then INT_MIN else 0),
      strtof = (\<lambda>s. if s = ''-1.0'' then Some f_minus_one
                    else if s = ''1.0'' then Some f_one else None),
      uninit = f_zero\<rparr>"

text \<open>
  The files of the examples. Unless said otherwise they have the header \<open>PF\<close>, width,
  height, scale:
  \<open>eof.pfm\<close> is 1 by 1 with scale \<open>1.0\<close> and ends with the scale token;
  \<open>big.pfm\<close> is the same followed by a newline;
  \<open>short.pfm\<close> is 1 by 1 with scale \<open>-1.0\<close> and a body of 5 bytes instead of 12;
  \<open>empty.pfm\<close> is 0 by 0 with scale \<open>-1.0\<close> and no body;
  \<open>magic.pfm\<close> starts with \<open>PX\<close> instead of \<open>PF\<close>;
  \<open>rows.pfm\<close> is 1 wide and 2 high with scale \<open>-1.0\<close>, the first row on disk holding
  \<open>1.0\<close> three times and the second \<open>2.0\<close> three times;
  \<open>huge.pfm\<close> is 30000 by 30000 with scale \<open>-1.0\<close> and no body: its 20 bytes declare
  2700000000 samples, more than \<open>INT_MAX\<close>;
  \<open>full.pfm\<close> has the same header and a body of all the 10800000000 bytes it declares,
  each of them 0.
\<close>

definition pfm_text :: "string \<Rightarrow> string \<Rightarrow> string \<Rightarrow> string" where
  "pfm_text w h scale = ''PF'' @ [newline] @ w @ '' '' @ h @ [newline] @ scale"

definition example_fs :: filesystem where
  "example_fs =
     \<lparr>contents = (\<lambda>name.
        if name = ''eof.pfm'' then Some (pfm_text ''1'' ''1'' ''1.0'')
        else if name = ''big.pfm'' then Some (pfm_text ''1'' ''1'' ''1.0'' @ [newline])
        else if name = ''short.pfm'' then Some (pfm_text ''1'' ''1'' ''-1.0'' @ [newline] @ ''12345'')
        else if name = ''empty.pfm'' then Some (pfm_text ''0'' ''0'' ''-1.0'' @ [newline])
        else if name = ''magic.pfm'' then Some (''PX'' @ [newline] @ ''1 1'' @ [newline] @ ''-1.0'' @ [newline])
        else if name = ''rows.pfm'' then
          Some (pfm_text ''1'' ''2'' ''-1.0'' @ [newline]
                @ concat (map float_to_bytes [f_one, f_one, f_one, f_two, f_two, f_two]))
        else if name = ''huge.pfm'' then Some (pfm_text ''30000'' ''30000'' ''-1.0'' @ [newline])
        else if name = ''full.pfm'' then
          Some (pfm_text ''30000'' ''30000'' ''-1.0'' @ [newline]
                @ replicate 10800000000 (CHR 0x00))
        else None),
      writable = (\<lambda>name. True)\<rparr>"

text \<open>A tensor of one white pixel.\<close>

definition white_pixel :: Tensor where
  "white_pixel = \<lparr>dims = [1, 1, 3], format = ''hwc'', data = [f_one, f_one, f_one]\<rparr>"

text \<open>A black tensor of 30000 by 30000 pixels: 2700000000 elements.\<close>

definition black_sheet :: Tensor where
  "black_sheet = \<lparr>dims = [30000, 30000, 3], format = ''hwc'', data = replicate 2700000000 f_zero\<rparr>"

text \<open>Two rows of two pixels, white on the diagonal and black elsewhere; a single black
  pixel; and 46341 rows of 46341 white pixels, 2147488281 pixels in all.\<close>

definition checker :: Data2D where
  "checker = \<lparr>height = 2, width = 2, get = (\<lambda>h w k. if h = w then f_one else f_zero)\<rparr>"

definition black_pixel :: Data2D where
  "black_pixel = \<lparr>height = 1, width = 1, get = (\<lambda>h w k. f_zero)\<rparr>"

definition white_field :: Data2D where
  "white_field = \<lparr>height = 46341, width = 46341, get = (\<lambda>h w k. f_one)\<rparr>"

section \<open>Evaluating the float literals and the order\<close>

lemmas float_literals = f_zero_def f_one_def f_minus_one_def f_2_2_def f_255_def f_key_def
  f_eps_def f_lum_r_def f_lum_g_def f_lum_b_def f_two_def f_half_def f_inf_def

lemmas float_order = float_gt_def float_ge_def float_le_def float_lt_def float_is_nan_def
  float_key_def

section \<open>Arithmetic in \<open>int\<close>\<close>

lemma wrap_int_id: "INT_MIN \<le> v \<Longrightarrow> v \<le> INT_MAX \<Longrightarrow> wrap_int v = v"
  by (simp add: wrap_int_def INT_MIN_def INT_MAX_def)

lemma wrap_int_nat: "int n \<le> INT_MAX \<Longrightarrow> wrap_int (int n) = int n"
  by (rule wrap_int_id) (simp_all add: INT_MIN_def)

lemma wrap_int_add_left: "wrap_int (wrap_int a + b) = wrap_int (a + b)"
  by (simp add: wrap_int_def mod_simps ac_simps)

lemma wrap_int_add_right: "wrap_int (a + wrap_int b) = wrap_int (a + b)"
  using wrap_int_add_left [of b a] by (simp add: add.commute)

lemma wrap_int_idem: "wrap_int (wrap_int a) = wrap_int a"
  using wrap_int_add_left [of a 0] by simp

section \<open>Properties of the dispatch\<close>

lemma rfind_last: "rfind (base @ [c]) c = Some (length base)"
  by (simp add: rfind_def)

lemma fileExtensionOf_trailing_dot: "fileExtensionOf (base @ ''.'') = Inr []"
  by (simp add: fileExtensionOf_def rfind_last)

text \<open>
  C9. A file name whose last character is its last \<open>'.'\<close> has the empty string as its
  extension: extraction succeeds, and both \<open>loadImage\<close> and \<open>saveImage\<close> throw
  \<open>std::invalid_argument\<close> with the message "image format is not supported", not the
  message "filename has no extension". This holds with and without the EXR codec.
\<close>

theorem trailing_dot_unsupported_format:
  assumes "filename \<noteq> []" and "last filename = CHR ''.''"
  shows "fileExtensionOf filename = Inr []
       \<and> loadImage exr env fs filename = Inl (invalid_argument ''image format is not supported'')
       \<and> saveImage exr env fs img filename = Inl (invalid_argument ''image format is not supported'')"
proof -
  from assms have "filename = butlast filename @ ''.''"
    using append_butlast_last_id [of filename] by simp
  then have ext: "fileExtensionOf filename = Inr []"
    using fileExtensionOf_trailing_dot [of "butlast filename"] by simp
  show ?thesis
    by (simp add: ext loadImage_def saveImage_def)
qed

theorem trailing_dot_unsupported_format_witness:
  "fileExtensionOf ''image.'' = Inr []
   \<and> loadImage None example_env example_fs ''image.''
       = Inl (invalid_argument ''image format is not supported'')
   \<and> saveImage None example_env example_fs white_pixel ''image.''
       = Inl (invalid_argument ''image format is not supported'')"
  using trailing_dot_unsupported_format [of "''image.''" None example_env example_fs white_pixel]
  by simp

section \<open>Properties of the exposure estimate\<close>

text \<open>The luminance the code computes for a pixel is the one of the specification.\<close>

lemma luminance_pixel:
  "luminance env (get input h w 0) (get input h w 1) (get input h w 2) = pixel_luminance env input h w"
  by (simp add: luminance_def pixel_luminance_def)

lemma accumulate_tally: "accumulate env input h w = tally env (pixel_luminance env input h w)"
  by (rule ext) (simp only: accumulate_def tally_def luminance_pixel Let_def)

lemma fold_row_tally:
  "fold (\<lambda>w. accumulate env input h w) ws acc = fold (tally env) (map (pixel_luminance env input h) ws) acc"
  by (simp add: accumulate_tally fold_map comp_def)

lemma fold_rows_tally:
  "fold (\<lambda>h. fold (\<lambda>w. accumulate env input h w) ws) hs acc
   = fold (tally env) (concat (map (\<lambda>h. map (\<lambda>w. pixel_luminance env input h w) ws) hs)) acc"
  by (induction hs arbitrary: acc) (simp_all add: fold_row_tally)

lemma reduce_body_tally:
  "reduce_body env input b e acc = fold (tally env) (luminances env input b e) acc"
  by (simp add: reduce_body_def luminances_def fold_rows_tally)

lemma fold_tally:
  "wrap_int (snd acc) = snd acc \<Longrightarrow>
   fold (tally env) Ls acc
   = (foldl (fadd env) (fst acc) (map (flog2 env) (filter (\<lambda>L. float_gt L f_eps) Ls)),
      wrap_int (snd acc + int (length (filter (\<lambda>L. float_gt L f_eps) Ls))))"
proof (induction Ls arbitrary: acc)
  case Nil
  then show ?case by simp
next
  case (Cons L Ls)
  show ?case
  proof (cases "float_gt L f_eps")
    case True
    let ?acc = "(fadd env (fst acc) (flog2 env L), wrap_int (snd acc + 1))"
    have "fold (tally env) (L # Ls) acc = fold (tally env) Ls ?acc"
      using True by (simp add: tally_def int_add_def)
    also have "\<dots> = (foldl (fadd env) (fst ?acc) (map (flog2 env) (filter (\<lambda>L. float_gt L f_eps) Ls)),
                    wrap_int (snd ?acc + int (length (filter (\<lambda>L. float_gt L f_eps) Ls))))"
      by (rule Cons.IH) (simp add: wrap_int_idem)
    finally show ?thesis
      using True by (simp add: wrap_int_add_left add.assoc)
  next
    case False
    then show ?thesis using Cons by (simp add: tally_def)
  qed
qed

lemma reduce_body_identity:
  "reduce_body env input b e (f_zero, 0)
   = (chunk_log_sum env input b e, wrap_int (int (length (bright env input b e))))"
proof -
  have "wrap_int 0 = 0" by (simp add: wrap_int_def)
  then show ?thesis
    using fold_tally [of "(f_zero, 0)" env "luminances env input b e"]
    by (simp add: reduce_body_tally chunk_log_sum_def bright_def)
qed

lemma luminances_split:
  "b \<le> m \<Longrightarrow> m \<le> e \<Longrightarrow> luminances env input b e = luminances env input b m @ luminances env input m e"
proof -
  assume "b \<le> m" "m \<le> e"
  then have "[b..<e] = [b..<m] @ [m..<e]"
    using upt_add_eq_append [of b m "e - m"] by simp
  then show ?thesis by (simp add: luminances_def)
qed

lemma bright_split:
  "b \<le> m \<Longrightarrow> m \<le> e \<Longrightarrow> bright env input b e = bright env input b m @ bright env input m e"
  using luminances_split [of b m e env input] by (simp add: bright_def)

lemma parallel_reduce_sum:
  "parallel_reduce part b e (f_zero, 0) (reduce_body env input) (reduce_join env)
   = (log_sum env input part b e, wrap_int (int (length (bright env input b e))))"
proof (induction part arbitrary: b e)
  case Chunk
  show ?case by (simp add: reduce_body_identity)
next
  case (Split k l r)
  show ?case
  proof (cases "0 < k \<and> b + k < e")
    case True
    then have "bright env input b e = bright env input b (b + k) @ bright env input (b + k) e"
      using bright_split [of b "b + k" e] by simp
    with True Split show ?thesis
      by (simp add: reduce_join_def int_add_def wrap_int_add_left wrap_int_add_right)
  next
    case False
    then show ?thesis by (auto simp add: reduce_body_identity)
  qed
qed

lemma float_le_not_gt: "float_le x y \<Longrightarrow> \<not> float_gt x y"
  by (auto simp: float_le_def float_ge_def float_gt_def)

lemma luminances_set:
  "L \<in> set (luminances env input b e) \<Longrightarrow> \<exists>h w. b \<le> h \<and> h < e \<and> w < nat (width input) \<and> L = pixel_luminance env input h w"
  by (clarsimp simp: luminances_def) blast

lemma bright_member:
  "b \<le> h \<Longrightarrow> h < e \<Longrightarrow> w < nat (width input) \<Longrightarrow> float_gt (pixel_luminance env input h w) f_eps
   \<Longrightarrow> pixel_luminance env input h w \<in> set (bright env input b e)"
  apply (simp add: bright_def luminances_def)
  apply (rule bexI [of _ h])
   apply (rule image_eqI [of _ _ w])
    apply simp_all
  done

lemma literal_fields:
  "float_exponent f_lum_r = 124" "float_fraction f_lum_r = 5883501" "\<not> bit f_lum_r 31"
  "float_exponent f_lum_g = 126" "float_fraction f_lum_g = 3609786" "\<not> bit f_lum_g 31"
  "float_exponent f_lum_b = 123" "float_fraction f_lum_b = 1297751" "\<not> bit f_lum_b 31"
  "float_exponent f_eps = 103" "float_fraction f_eps = 5685141" "\<not> bit f_eps 31"
  "float_exponent f_key = 124" "float_fraction f_key = 3690988" "\<not> bit f_key 31"
  by (simp_all add: float_exponent_def float_fraction_def float_literals)

lemma literal_values:
  "float_literal 212671 1000000 f_lum_r" "float_literal 715160 1000000 f_lum_g"
  "float_literal 72169 1000000 f_lum_b" "float_literal 1 10000000 f_eps"
  "float_literal 18 100 f_key"
  by (simp_all add: float_literal_def float_units_def float_ulp_def literal_fields)

text \<open>
  C2, amended. The weights, the epsilon and the key of the code are the floats of the
  literals \<open>0.212671\<close>, \<open>0.715160\<close>, \<open>0.072169\<close>, \<open>1e-7\<close> and \<open>0.18\<close>. If some pixel of
  the view has a luminance \<open>0.212671*R + 0.715160*G + 0.072169*B\<close> above \<open>1e-7\<close> and the
  number of such pixels is at most \<open>INT_MAX\<close>, the exposure estimate is
  \<open>0.18 / 2^(sum / count)\<close>, where \<open>count\<close> is the number of pixels with luminance above
  \<open>1e-7\<close> and \<open>sum\<close> is the sum of \<open>log2 L\<close> over exactly those pixels; a pixel at or
  below \<open>1e-7\<close> adds to neither. This holds for every way the rows are partitioned.
\<close>

theorem autoexposure_log_average:
  assumes "h < nat (height input)" and "w < nat (width input)"
    and "float_gt (pixel_luminance env input h w) f_eps"
    and "bright_count env input \<le> INT_MAX"
  shows "float_literal 212671 1000000 f_lum_r \<and> float_literal 715160 1000000 f_lum_g
       \<and> float_literal 72169 1000000 f_lum_b \<and> float_literal 1 10000000 f_eps
       \<and> float_literal 18 100 f_key
       \<and> autoexposure env part input
           = fdiv env f_key (fexp2 env (fdiv env (log_sum env input part 0 (nat (height input)))
                                          (int_to_float env (bright_count env input))))"
proof -
  have "pixel_luminance env input h w \<in> set (bright env input 0 (nat (height input)))"
    using assms(1-3) by (simp add: bright_member)
  then have "bright env input 0 (nat (height input)) \<noteq> []" by auto
  then have pos: "0 < bright_count env input" by (simp add: bright_count_def)
  have "wrap_int (int (length (bright env input 0 (nat (height input))))) = bright_count env input"
    using assms(4) unfolding bright_count_def by (rule wrap_int_nat)
  then have "autoexposure env part input
           = fdiv env f_key (fexp2 env (fdiv env (log_sum env input part 0 (nat (height input)))
                                          (int_to_float env (bright_count env input))))"
    using pos by (simp add: autoexposure_def parallel_reduce_sum)
  then show ?thesis by (simp add: literal_values)
qed

text \<open>
  C8. If the luminance of every pixel of the view is at or below \<open>1e-7\<close>, the exposure
  estimate is exactly the float \<open>1.0\<close>, for every way the rows are partitioned.
\<close>

theorem autoexposure_black:
  assumes "\<And>h w. h < nat (height input) \<Longrightarrow> w < nat (width input) \<Longrightarrow> float_le (pixel_luminance env input h w) f_eps"
  shows "autoexposure env part input = f_one"
proof -
  have "\<not> float_gt L f_eps" if "L \<in> set (luminances env input 0 (nat (height input)))" for L
  proof -
    from luminances_set [OF that] obtain h w
      where "h < nat (height input)" "w < nat (width input)" "L = pixel_luminance env input h w"
      by blast
    then show ?thesis using assms [of h w] float_le_not_gt by simp
  qed
  then have "bright env input 0 (nat (height input)) = []"
    by (simp add: bright_def filter_empty_conv)
  then show ?thesis
    by (simp add: autoexposure_def parallel_reduce_sum wrap_int_def)
qed

section \<open>The examples evaluated\<close>

lemma lum_white: "luminance example_env f_one f_one f_one = f_one"
  by (simp add: luminance_def example_env_def float_literals)

lemma lum_black: "luminance example_env f_zero f_zero f_zero = f_zero"
  by (simp add: luminance_def example_env_def float_literals)

lemma checker_lum:
  "pixel_luminance example_env checker h w = (if h = w then f_one else f_zero)"
  using lum_white lum_black by (simp add: luminance_pixel [symmetric] checker_def)

lemma upt2: "[0..<2] = [0, Suc 0]" "[Suc 0..<2] = [Suc 0]" by (simp_all add: numeral_2_eq_2)

lemma checker_bright: "bright example_env checker 0 2 = [f_one, f_one]"
       "bright example_env checker 0 (Suc 0) = [f_one]" "bright example_env checker (Suc 0) 2 = [f_one]"
  by (simp_all add: bright_def luminances_def checker_lum upt2)
    (simp_all add: checker_def upt2 float_literals float_order)

lemma example_ops:
  "fadd example_env f_zero y = y"
  "fmul example_env x f_one = x"
  "fdiv example_env x f_one = x"
  "fdiv example_env f_zero f_two = f_zero"
  "flog2 example_env f_one = f_zero"
  "fexp2 example_env f_zero = f_one"
  "int_to_float example_env 1 = f_one"
  "int_to_float example_env 2 = f_two"
  by (simp_all add: example_env_def float_literals)

theorem autoexposure_log_average_witness:
  "float_gt (pixel_luminance example_env checker 0 0) f_eps
   \<and> autoexposure example_env (Split 1 Chunk Chunk) checker = f_key"
proof -
  have gt: "float_gt (pixel_luminance example_env checker 0 0) f_eps"
    by (simp add: checker_lum float_literals float_order)
  have h: "nat (height checker) = 2" and w: "nat (width checker) = 2"
    by (simp_all add: checker_def)
  have ls: "log_sum example_env checker (Split 1 Chunk Chunk) 0 2 = f_zero"
    by (simp add: chunk_log_sum_def checker_bright example_ops)
  have bc: "bright_count example_env checker = 2"
    by (simp add: bright_count_def h checker_bright)
  have "autoexposure example_env (Split 1 Chunk Chunk) checker
        = fdiv example_env f_key (fexp2 example_env (fdiv example_env
            (log_sum example_env checker (Split 1 Chunk Chunk) 0 (nat (height checker)))
            (int_to_float example_env (bright_count example_env checker))))"
    using autoexposure_log_average [of 0 checker 0 example_env "Split 1 Chunk Chunk"] gt bc
    by (simp add: h w INT_MAX_def)
  then have "autoexposure example_env (Split 1 Chunk Chunk) checker = f_key"
    by (simp only: h ls bc example_ops)
  with gt show ?thesis by simp
qed

lemma white_lum: "pixel_luminance example_env white_field h w = f_one"
  using lum_white by (simp add: luminance_pixel [symmetric] white_field_def)

lemma concat_replicate_rows: "concat (replicate m (replicate n x)) = replicate (m * n) x"
  by (induction m) (simp_all add: replicate_add)

lemma white_bright: "bright example_env white_field 0 m = replicate (m * 46341) f_one"
proof -
  have w: "nat (width white_field) = 46341" by (simp add: white_field_def)
  have "luminances example_env white_field 0 m = replicate (m * 46341) f_one"
    unfolding luminances_def white_lum w
    by (simp only: map_replicate_const concat_replicate_rows length_upt diff_zero)
  moreover have "float_gt f_one f_eps" by (simp add: float_literals float_order)
  ultimately show ?thesis by (simp add: bright_def)
qed

lemma foldl_zeros: "foldl (fadd example_env) f_zero (replicate n f_zero) = f_zero"
  by (induction n) (simp_all add: example_ops)

lemma white_log_sum: "chunk_log_sum example_env white_field 0 m = f_zero"
  by (simp add: chunk_log_sum_def white_bright example_ops foldl_zeros)

text \<open>
  C2 as stated fails where the count leaves the range of \<open>int\<close>. In the view
  \<open>white_field\<close> all 2147488281 pixels have the luminance \<open>1.0\<close>, which is above \<open>1e-7\<close>.
  The count of the code wraps around to a negative number and the estimate is \<open>1.0\<close>;
  the sum of the logarithms is 0, so \<open>0.18 / 2^(sum / count)\<close> is \<open>0.18\<close>.
\<close>

theorem autoexposure_log_average_counterexample:
  "float_gt (pixel_luminance example_env white_field 0 0) f_eps
   \<and> bright_count example_env white_field = 2147488281
   \<and> autoexposure example_env Chunk white_field = f_one
   \<and> fdiv example_env f_key (fexp2 example_env (fdiv example_env
         (log_sum example_env white_field Chunk 0 (nat (height white_field)))
         (int_to_float example_env (bright_count example_env white_field)))) = f_key
   \<and> f_one \<noteq> f_key"
proof -
  have h: "nat (height white_field) = 46341" by (simp add: white_field_def)
  have gt: "float_gt (pixel_luminance example_env white_field 0 0) f_eps"
    by (simp add: white_lum float_literals float_order)
  have bc: "bright_count example_env white_field = 2147488281"
    by (simp add: bright_count_def h white_bright)
  have acc: "parallel_reduce Chunk 0 46341 (f_zero, 0) (reduce_body example_env white_field)
               (reduce_join example_env) = (f_zero, - 2147479015)"
    by (simp add: reduce_body_identity white_log_sum white_bright wrap_int_def)
  have est: "autoexposure example_env Chunk white_field = f_one"
    unfolding autoexposure_def h acc by simp
  have "int_to_float example_env 2147488281 = 0x4F000012"
    by (simp add: example_env_def)
  moreover have "fdiv example_env f_zero 0x4F000012 = f_zero"
    by (simp add: example_env_def float_literals)
  ultimately have claim: "fdiv example_env f_key (fexp2 example_env (fdiv example_env
         (log_sum example_env white_field Chunk 0 (nat (height white_field)))
         (int_to_float example_env (bright_count example_env white_field)))) = f_key"
    by (simp add: h bc white_log_sum example_ops)
  have "f_one \<noteq> f_key" by (simp add: float_literals)
  with gt bc est claim show ?thesis by simp
qed

theorem autoexposure_black_witness:
  "float_le (pixel_luminance example_env black_pixel 0 0) f_eps
   \<and> autoexposure example_env (Split 1 Chunk Chunk) black_pixel = f_one"
proof -
  have le: "float_le (pixel_luminance example_env black_pixel h w) f_eps" for h w
    using lum_black by (simp add: luminance_pixel [symmetric] black_pixel_def) (simp add: float_literals float_order)
  show ?thesis
    using le autoexposure_black [of black_pixel example_env "Split 1 Chunk Chunk"] by simp
qed

section \<open>Properties of the simple-float decoder\<close>

subsection \<open>The stream during the pixel loops\<close>

lemma snd_istream_read: "snd (istream_read s n dst) = snd (istream_read s n dst')"
  by (simp add: istream_read_def)

lemma fst_read_store: "fst (read_store env scale i st) = after_read (fst st)"
proof (cases st)
  case (Pair s img)
  have "fst (read_store env scale i (s, img)) = snd (istream_read s 4 (float_to_bytes (uninit env)))"
    by (simp add: read_store_def split: prod.splits)
  also have "\<dots> = after_read s"
    unfolding after_read_def by (rule snd_istream_read)
  finally show ?thesis using Pair by simp
qed

lemma fst_fold_stream:
  assumes "\<And>x st. fst (f x st) = g (fst st)"
  shows "fst (fold f xs st) = (g ^^ length xs) (fst st)"
  using assms by (induction xs arbitrary: st) (simp_all add: funpow_swap1)

lemma fst_read_store_all:
  "fst (read_store_all env H W C scale st) = (after_read ^^ (H * W * C)) (fst st)"
proof -
  have c: "fst (fold (\<lambda>c. read_store env scale (i c)) [0..<C] st)
           = (after_read ^^ C) (fst st)" for i st
    using fst_fold_stream [of "\<lambda>c. read_store env scale (i c)" after_read "[0..<C]" st]
    by (simp add: fst_read_store)
  have w: "fst (fold (\<lambda>w. fold (\<lambda>c. read_store env scale (i w c)) [0..<C]) [0..<W] st)
           = (after_read ^^ (W * C)) (fst st)" for i st
    using fst_fold_stream [of "\<lambda>w. fold (\<lambda>c. read_store env scale (i w c)) [0..<C]"
        "after_read ^^ C" "[0..<W]" st] c
    by (simp add: funpow_mult mult.commute)
  have "fst (fold (\<lambda>h. fold (\<lambda>w. fold (\<lambda>c. read_store env scale (i h w c)) [0..<C]) [0..<W]) [0..<H] st)
           = (after_read ^^ (H * (W * C))) (fst st)" for i st
    using fst_fold_stream [of "\<lambda>h. fold (\<lambda>w. fold (\<lambda>c. read_store env scale (i h w c)) [0..<C]) [0..<W]"
        "after_read ^^ (W * C)" "[0..<H]" st] w
    by (simp add: funpow_mult mult.commute)
  then show ?thesis by (simp add: read_store_all_def mult.assoc)
qed

lemma length_read_store: "length (data (snd (read_store env scale i st))) = length (data (snd st))"
  by (simp add: read_store_def split: prod.splits)

lemma after_read_failed: "failbit s \<Longrightarrow> failbit (after_read s)"
  by (simp add: after_read_def istream_read_def good_def)

lemma funpow_after_read_failed: "failbit s \<Longrightarrow> failbit ((after_read ^^ n) s)"
  by (induction n) (simp_all add: after_read_failed)

lemma after_read_good:
  "good s \<Longrightarrow> 4 \<le> length (buf s) \<Longrightarrow> after_read s = s\<lparr>buf := drop 4 (buf s)\<rparr>"
  by (simp add: after_read_def istream_read_def)

lemma after_read_short:
  "length (buf s) < 4 \<Longrightarrow> failbit (after_read s)"
  by (simp add: after_read_def istream_read_def)

lemma funpow_after_read_good:
  "good s \<Longrightarrow> 4 * n \<le> length (buf s) \<Longrightarrow> (after_read ^^ n) s = s\<lparr>buf := drop (4 * n) (buf s)\<rparr>"
proof (induction n arbitrary: s)
  case 0
  then show ?case by simp
next
  case (Suc n)
  have "(after_read ^^ Suc n) s = (after_read ^^ n) (after_read s)" by (simp add: funpow_swap1)
  also have "after_read s = s\<lparr>buf := drop 4 (buf s)\<rparr>" using Suc.prems by (simp add: after_read_good)
  also have "(after_read ^^ n) (s\<lparr>buf := drop 4 (buf s)\<rparr>) = s\<lparr>buf := drop 4 (buf s)\<rparr>\<lparr>buf := drop (4 * n) (buf (s\<lparr>buf := drop 4 (buf s)\<rparr>))\<rparr>"
    using Suc.prems by (intro Suc.IH) (simp_all add: good_def)
  finally show ?case by (simp add: add.commute)
qed

lemma funpow_after_read_short:
  "length (buf s) < 4 * n \<Longrightarrow> failbit ((after_read ^^ n) s)"
proof (induction n arbitrary: s)
  case 0
  then show ?case by simp
next
  case (Suc n)
  have step: "(after_read ^^ Suc n) s = (after_read ^^ n) (after_read s)" by (simp add: funpow_swap1)
  show ?case
  proof (cases "good s \<and> 4 \<le> length (buf s)")
    case True
    then have "after_read s = s\<lparr>buf := drop 4 (buf s)\<rparr>" by (simp add: after_read_good)
    moreover have "length (buf (s\<lparr>buf := drop 4 (buf s)\<rparr>)) < 4 * n" using Suc.prems True by auto
    ultimately show ?thesis using Suc.IH [of "s\<lparr>buf := drop 4 (buf s)\<rparr>"] step by simp
  next
    case False
    then have "failbit (after_read s)"
      by (auto simp: after_read_def istream_read_def good_def)
    then show ?thesis using step funpow_after_read_failed by simp
  qed
qed

subsection \<open>The element index and the loops within the range of \<open>int\<close>\<close>

text \<open>While the element count \<open>H*W*C\<close> is at most \<open>INT_MAX\<close>, no step of the index
  computation wraps around, and the index is inside a buffer of \<open>H*W*C\<close> elements.\<close>

lemma le_mult_pos: "0 < n \<Longrightarrow> m \<le> m * (n::nat)"
  by (cases n) simp_all

lemma pfm_index_exact:
  assumes "h < nat H" and "w < nat W" and "c < nat C" and "H * W * C \<le> INT_MAX"
  shows "pfm_index H W C h w c = int ((nat H - 1 - h) * (nat W * nat C) + w * nat C + c)
         \<and> (nat H - 1 - h) * (nat W * nat C) + w * nat C + c < nat H * (nat W * nat C)"
proof -
  obtain Hn Wn Cn where eq: "H = int Hn" "W = int Wn" "C = int Cn"
    using assms by (metis nat_0_iff not_less_zero nat_eq_iff2 linorder_not_le of_nat_0)
  have hwc: "h < Hn" "w < Wn" "c < Cn" using assms(1-3) eq by simp_all
  define a where "a = Hn - 1 - h"
  define N where "N = Hn * Wn * Cn"
  have "int N = H * W * C" by (simp add: N_def eq)
  then have N: "int N \<le> INT_MAX" using assms(4) by simp
  have fits: "wrap_int (int k) = int k" if "k \<le> N" for k
    using that N by (intro wrap_int_nat) simp
  have a1: "a + 1 \<le> Hn" using hwc by (simp add: a_def)
  have "a * Wn + w + 1 \<le> a * Wn + Wn" using hwc by simp
  also have "\<dots> = (a + 1) * Wn" by simp
  also have "\<dots> \<le> Hn * Wn" using a1 by (rule mult_le_mono1)
  finally have b1: "a * Wn + w + 1 \<le> Hn * Wn" .
  have "(a * Wn + w) * Cn + c + 1 \<le> (a * Wn + w) * Cn + Cn" using hwc by simp
  also have "\<dots> = (a * Wn + w + 1) * Cn" by simp
  also have "\<dots> \<le> Hn * Wn * Cn" using b1 by (rule mult_le_mono1)
  finally have b2: "(a * Wn + w) * Cn + c + 1 \<le> N" by (simp add: N_def)
  have Wn: "0 < Wn" and Cn: "0 < Cn" using hwc by simp_all
  have HW: "Hn * Wn \<le> N" unfolding N_def using Cn by (rule le_mult_pos)
  have "Hn \<le> Hn * Wn" using Wn by (rule le_mult_pos)
  then have Hle: "Hn \<le> N" using HW by (rule order_trans)
  have k5a: "(a * Wn + w) * Cn \<le> N" using b2 by simp
  have "a * Wn + w \<le> (a * Wn + w) * Cn" using Cn by (rule le_mult_pos)
  then have k5b: "a * Wn + w \<le> N" using k5a by (rule order_trans)
  have k5: "(a * Wn + w) * Cn \<le> N" "a * Wn + w \<le> N" by (rule k5a) (rule k5b)
  have k3: "a * Wn \<le> N" using k5b by simp
  have k2: "a \<le> N" "Hn - 1 \<le> N" using a1 Hle by simp_all
  have "H - 1 = int (Hn - 1)" using hwc eq by simp
  then have s1: "int_sub H 1 = int (Hn - 1)" using fits [OF k2(2)] by (simp only: int_sub_def)
  have "int (Hn - 1) - int h = int a" using hwc by (simp add: a_def)
  then have s2: "int_sub (int (Hn - 1)) (int h) = int a" using fits [OF k2(1)] by (simp only: int_sub_def)
  have "int a * W = int (a * Wn)" by (simp add: eq)
  then have s3: "int_mul (int a) W = int (a * Wn)" using fits [OF k3] by (simp only: int_mul_def)
  have "int (a * Wn) + int w = int (a * Wn + w)" by simp
  then have s4: "int_add (int (a * Wn)) (int w) = int (a * Wn + w)"
    using fits [OF k5(2)] by (simp only: int_add_def)
  have "int (a * Wn + w) * C = int ((a * Wn + w) * Cn)" by (simp add: eq)
  then have s5: "int_mul (int (a * Wn + w)) C = int ((a * Wn + w) * Cn)"
    using fits [OF k5(1)] by (simp only: int_mul_def)
  have k6: "(a * Wn + w) * Cn + c \<le> N" using b2 by simp
  have "int ((a * Wn + w) * Cn) + int c = int ((a * Wn + w) * Cn + c)" by simp
  then have s6: "int_add (int ((a * Wn + w) * Cn)) (int c) = int ((a * Wn + w) * Cn + c)"
    using fits [OF k6] by (simp only: int_add_def)
  have idx: "pfm_index H W C h w c = int ((a * Wn + w) * Cn + c)"
    by (simp only: pfm_index_def s1 s2 s3 s4 s5 s6)
  have alg: "(a * Wn + w) * Cn + c = a * (Wn * Cn) + w * Cn + c"
    by (simp add: algebra_simps)
  have idx': "pfm_index H W C h w c = int (a * (Wn * Cn) + w * Cn + c)"
    using idx by (simp only: alg)
  have "(a * Wn + w) * Cn + c < Hn * Wn * Cn" using b2 by (simp add: N_def)
  then have lt: "a * (Wn * Cn) + w * Cn + c < Hn * (Wn * Cn)"
    by (simp only: alg mult.assoc)
  have n: "nat H = Hn" "nat W = Wn" "nat C = Cn" using eq by simp_all
  show ?thesis
    unfolding n a_def [symmetric] by (rule conjI [OF idx' lt])
qed

text \<open>A checked loop is the plain loop as long as every iteration goes through.\<close>

lemma fold_checked:
  assumes "\<And>x st. x \<in> set xs \<Longrightarrow> P st \<Longrightarrow> F x (Inr st) = Inr (f x st) \<and> P (f x st)"
    and "P st"
  shows "fold F xs (Inr st) = Inr (fold f xs st) \<and> P (fold f xs st)"
  using assms by (induction xs arbitrary: st) simp_all

lemma fold_failed:
  assumes "\<And>x. F x (Inl e) = Inl e"
  shows "fold F xs (Inl e) = Inl e"
  using assms by (induction xs) simp_all

lemma pfm_read_sample_stores:
  assumes "pfm_index H W C h w c = int i" and "i < length (data (snd st))"
  shows "pfm_read_sample env H W C scale h w c (Inr st) = Inr (read_store env scale i st)"
  using assms
  by (cases st) (simp add: pfm_read_sample_def read_store_def tensor_set_def split: prod.splits)

lemma pfm_read_pixels_exact:
  assumes "H * W * C \<le> INT_MAX" and "length (data img) = nat H * (nat W * nat C)"
  shows "pfm_read_pixels env H W C scale (s, img)
         = Inr (read_store_all env (nat H) (nat W) (nat C) scale (s, img))"
proof -
  let ?P = "\<lambda>st. length (data (snd st)) = nat H * (nat W * nat C)"
  let ?i = "\<lambda>h w c. (nat H - 1 - h) * (nat W * nat C) + w * nat C + c"
  have sample: "pfm_read_sample env H W C scale h w c (Inr st) = Inr (read_store env scale (?i h w c) st)
                \<and> ?P (read_store env scale (?i h w c) st)"
    if "h < nat H" "w < nat W" "c < nat C" "?P st" for h w c st
    using pfm_index_exact [OF that(1-3) assms(1)] that(4)
    by (simp add: pfm_read_sample_stores length_read_store)
  have channels: "fold (\<lambda>c. pfm_read_sample env H W C scale h w c) [0..<nat C] (Inr st)
                  = Inr (fold (\<lambda>c. read_store env scale (?i h w c)) [0..<nat C] st)
                \<and> ?P (fold (\<lambda>c. read_store env scale (?i h w c)) [0..<nat C] st)"
    if "h < nat H" "w < nat W" "?P st" for h w st
    using that by (intro fold_checked [where P = ?P] sample) simp_all
  have row: "fold (\<lambda>w. fold (\<lambda>c. pfm_read_sample env H W C scale h w c) [0..<nat C]) [0..<nat W] (Inr st)
             = Inr (fold (\<lambda>w. fold (\<lambda>c. read_store env scale (?i h w c)) [0..<nat C]) [0..<nat W] st)
           \<and> ?P (fold (\<lambda>w. fold (\<lambda>c. read_store env scale (?i h w c)) [0..<nat C]) [0..<nat W] st)"
    if "h < nat H" "?P st" for h st
    using that by (intro fold_checked [where P = ?P] channels) simp_all
  have "fold (\<lambda>h. fold (\<lambda>w. fold (\<lambda>c. pfm_read_sample env H W C scale h w c) [0..<nat C]) [0..<nat W])
          [0..<nat H] (Inr (s, img))
        = Inr (fold (\<lambda>h. fold (\<lambda>w. fold (\<lambda>c. read_store env scale (?i h w c)) [0..<nat C]) [0..<nat W])
                 [0..<nat H] (s, img))
      \<and> ?P (fold (\<lambda>h. fold (\<lambda>w. fold (\<lambda>c. read_store env scale (?i h w c)) [0..<nat C]) [0..<nat W])
                 [0..<nat H] (s, img))"
    using assms(2) by (intro fold_checked [where P = ?P] row) simp_all
  then show ?thesis by (simp add: pfm_read_pixels_def read_store_all_def)
qed

text \<open>A first store outside the buffer decides the whole run.\<close>

lemma fold_upt_failed:
  assumes "0 < n" and "F 0 st = Inl e" and "\<And>x. F x (Inl e) = Inl e"
  shows "fold F [0..<n] st = Inl e"
proof -
  have "[0..<n] = 0 # [1..<n]" using assms(1) by (simp add: upt_conv_Cons)
  then have "fold F [0..<n] st = fold F [1..<n] (F 0 st)" by simp
  also have "\<dots> = Inl e" unfolding assms(2) using assms(3) by (rule fold_failed)
  finally show ?thesis .
qed

lemma pfm_read_pixels_outside:
  assumes "0 < H" and "0 < W" and "0 < C" and "pfm_index H W C 0 0 0 < 0"
  shows "pfm_read_pixels env H W C scale st = Inl undefined_behaviour"
proof -
  have stop: "pfm_read_sample env H W C scale h w c (Inl e) = Inl e" for h w c e
    by (simp add: pfm_read_sample_def)
  have stop_c: "fold (\<lambda>c. pfm_read_sample env H W C scale h w c) cs (Inl e) = Inl e" for h w cs e
    by (rule fold_failed) (rule stop)
  have stop_w: "fold (\<lambda>w. fold (\<lambda>c. pfm_read_sample env H W C scale h w c) cs) ws (Inl e) = Inl e"
    for h cs ws e
    by (rule fold_failed) (rule stop_c)
  have first: "pfm_read_sample env H W C scale 0 0 0 (Inr st) = Inl undefined_behaviour"
    using assms(4) by (cases st) (simp add: pfm_read_sample_def tensor_set_def split: prod.splits)
  have first_c: "fold (\<lambda>c. pfm_read_sample env H W C scale 0 0 c) [0..<nat C] (Inr st)
                 = Inl undefined_behaviour"
    using assms(3) by (intro fold_upt_failed first stop) simp
  have first_w: "fold (\<lambda>w. fold (\<lambda>c. pfm_read_sample env H W C scale 0 w c) [0..<nat C]) [0..<nat W] (Inr st)
                 = Inl undefined_behaviour"
    using assms(2) by (intro fold_upt_failed first_c stop_c) simp
  have "fold (\<lambda>h. fold (\<lambda>w. fold (\<lambda>c. pfm_read_sample env H W C scale h w c) [0..<nat C]) [0..<nat W])
          [0..<nat H] (Inr st) = Inl undefined_behaviour"
    using assms(1) by (intro fold_upt_failed first_w stop_w) simp
  then show ?thesis by (simp only: pfm_read_pixels_def)
qed

subsection \<open>Printing and reading an integer\<close>

lemma of_char_digit: "k < 10 \<Longrightarrow> (of_char (char_of (48 + k)) :: nat) = 48 + (k::nat)"
  by simp

lemma isdigit_digit: "k < 10 \<Longrightarrow> isdigit (char_of (48 + (k::nat)))"
  by (simp add: isdigit_def)

lemma digit_value_digit: "k < 10 \<Longrightarrow> digit_value (char_of (48 + (k::nat))) = int k"
  by (simp add: digit_value_def)

lemma decimal_digits_isdigit: "c \<in> set (decimal_digits n) \<Longrightarrow> isdigit c"
proof (induction n arbitrary: c rule: decimal_digits.induct)
  case (1 n)
  show ?case
  proof (cases "n < 10")
    case True
    then have "decimal_digits n = [char_of (48 + n)]"
      by (subst decimal_digits.simps) simp
    with "1.prems" True show ?thesis by (simp add: isdigit_digit)
  next
    case False
    then have "decimal_digits n = decimal_digits (n div 10) @ [char_of (48 + n mod 10)]"
      by (subst decimal_digits.simps) simp
    with "1.prems" "1.IH" False show ?thesis
      by (auto simp: isdigit_digit)
  qed
qed

lemma decimal_digits_nonempty: "decimal_digits n \<noteq> []"
  by (subst decimal_digits.simps) simp

lemma decimal_value_snoc: "decimal_value (ds @ [d]) = 10 * decimal_value ds + digit_value d"
  by (simp add: decimal_value_def)

lemma decimal_value_digits: "decimal_value (decimal_digits n) = int n"
proof (induction n rule: decimal_digits.induct)
  case (1 n)
  show ?case
  proof (cases "n < 10")
    case True
    then have "decimal_digits n = [char_of (48 + n)]"
      by (subst decimal_digits.simps) simp
    with True show ?thesis by (simp add: decimal_value_def digit_value_digit)
  next
    case False
    then have "decimal_digits n = decimal_digits (n div 10) @ [char_of (48 + n mod 10)]"
      by (subst decimal_digits.simps) simp
    then have "decimal_value (decimal_digits n) = 10 * int (n div 10) + int (n mod 10)"
      using "1.IH" False by (simp add: decimal_value_snoc digit_value_digit)
    moreover have "10 * int (n div 10) + int (n mod 10) = int n"
      by presburger
    ultimately show ?thesis by simp
  qed
qed

lemma isdigit_not_space: "isdigit c \<Longrightarrow> \<not> isspace c"
  by (auto simp: isdigit_def isspace_def)

lemma isdigit_not_sign: "isdigit c \<Longrightarrow> \<not> is_sign c"
  by (auto simp: isdigit_def is_sign_def)

lemma not_isdigit_space: "isspace c \<Longrightarrow> \<not> isdigit c"
  using isdigit_not_space by blast

lemma isspace_simps: "isspace newline" "isspace (CHR '' '')" "\<not> isspace (CHR ''P'')" "\<not> isspace (CHR ''F'')"
  by (simp_all add: isspace_def newline_def)

subsection \<open>Reading the header\<close>

lemma dropWhile_space_prefix:
  "\<forall>x\<in>set ws. isspace x \<Longrightarrow> \<not> isspace c \<Longrightarrow> dropWhile isspace (ws @ c # cs) = c # cs"
  by (simp add: dropWhile_append2)

lemma sentry_skips:
  assumes "\<forall>x\<in>set ws. isspace x" and "\<not> isspace c"
  shows "sentry \<lparr>buf = ws @ c # cs, failbit = False, eofbit = False\<rparr>
         = (True, \<lparr>buf = c # cs, failbit = False, eofbit = False\<rparr>)"
  using dropWhile_space_prefix [of ws c cs] assms by (simp add: sentry_def good_def)

lemma get_string_PF:
  "get_string \<lparr>buf = ''PF'' @ newline # rest, failbit = False, eofbit = False\<rparr>
   = (''PF'', \<lparr>buf = newline # rest, failbit = False, eofbit = False\<rparr>)"
  by (simp add: get_string_def sentry_def good_def isspace_def newline_def)

lemma get_int_text:
  assumes ws: "\<forall>x\<in>set ws. isspace x" and c: "\<not> isdigit c" and n: "int n \<le> INT_MAX"
  shows "get_int \<lparr>buf = ws @ decimal_digits n @ c # rest, failbit = False, eofbit = False\<rparr>
         = (int n, \<lparr>buf = c # rest, failbit = False, eofbit = False\<rparr>)"
proof -
  obtain d ds where dds: "decimal_digits n = d # ds"
    using decimal_digits_nonempty [of n] by (cases "decimal_digits n") auto
  have dig: "\<And>x. x \<in> set (d # ds) \<Longrightarrow> isdigit x"
    using decimal_digits_isdigit [of _ n] dds by simp
  then have d: "isdigit d" by simp
  have s: "sentry \<lparr>buf = ws @ d # (ds @ c # rest), failbit = False, eofbit = False\<rparr>
           = (True, \<lparr>buf = d # (ds @ c # rest), failbit = False, eofbit = False\<rparr>)"
    using ws d sentry_skips [of ws d "ds @ c # rest"] by (simp add: isdigit_not_space)
  have tw: "takeWhile isdigit (d # ds @ c # rest) = d # ds"
    using takeWhile_append2 [of "d # ds" isdigit "c # rest"] dig c by simp
  have dw: "dropWhile isdigit (d # ds @ c # rest) = c # rest"
    using dropWhile_append2 [of "d # ds" isdigit "c # rest"] dig c by simp
  have v: "decimal_value (d # ds) = int n"
    using decimal_value_digits [of n] dds by simp
  have range: "\<not> int n < INT_MIN"
    by (simp add: INT_MIN_def)
  have ns: "\<not> is_sign d" using d by (rule isdigit_not_sign)
  then have nm: "d \<noteq> CHR ''-''" by (auto simp: is_sign_def)
  show ?thesis
    using s tw dw v n range ns nm
    by (simp add: get_int_def dds Let_def)
qed

lemma get_float_text:
  assumes ws: "\<forall>x\<in>set ws. isspace x" and tok: "tok \<noteq> []" "\<not> isspace (hd tok)"
    and ft: "float_token (tok @ rest) = (tok, rest)" and v: "strtof env tok = Some v"
  shows "get_float env \<lparr>buf = ws @ tok @ rest, failbit = False, eofbit = False\<rparr>
         = (v, \<lparr>buf = rest, failbit = False, eofbit = (rest = [])\<rparr>)"
proof -
  obtain t ts where tts: "tok = t # ts" using tok by (cases tok) auto
  have s: "sentry \<lparr>buf = ws @ t # (ts @ rest), failbit = False, eofbit = False\<rparr>
           = (True, \<lparr>buf = t # (ts @ rest), failbit = False, eofbit = False\<rparr>)"
    using ws tok tts sentry_skips [of ws t "ts @ rest"] by simp
  show ?thesis
    using s ft v tts by (simp add: get_float_def)
qed

lemma put_int_nonneg: "0 \<le> n \<Longrightarrow> put_int n = decimal_digits (nat n)"
  by (simp add: put_int_def)

lemma pfm_tokens_text:
  assumes W: "0 \<le> W" "W \<le> INT_MAX" and H: "0 \<le> H" "H \<le> INT_MAX"
    and tok: "tok \<noteq> []" "\<not> isspace (hd tok)" "float_token (tok @ rest) = (tok, rest)"
    and v: "strtof env tok = Some v"
  shows "pfm_tokens env (istream_open (''PF'' @ [newline] @ put_int W @ '' '' @ put_int H
                                        @ [newline] @ tok @ rest))
         = Inr (3, W, H, v, \<lparr>buf = rest, failbit = False, eofbit = (rest = [])\<rparr>)"
proof -
  let ?r3 = "tok @ rest"
  let ?r2 = "decimal_digits (nat H) @ newline # ?r3"
  let ?r1 = "decimal_digits (nat W) @ CHR '' '' # ?r2"
  have g1: "get_string (istream_open (''PF'' @ [newline] @ put_int W @ '' '' @ put_int H @ [newline] @ tok @ rest))
            = (''PF'', \<lparr>buf = newline # ?r1, failbit = False, eofbit = False\<rparr>)"
    using get_string_PF [of ?r1] W H by (simp add: istream_open_def put_int_nonneg)
  have g2: "get_int \<lparr>buf = newline # ?r1, failbit = False, eofbit = False\<rparr>
            = (W, \<lparr>buf = CHR '' '' # ?r2, failbit = False, eofbit = False\<rparr>)"
    using get_int_text [of "[newline]" "CHR '' ''" "nat W" ?r2] W
    by (simp add: isspace_simps not_isdigit_space)
  have g3: "get_int \<lparr>buf = CHR '' '' # ?r2, failbit = False, eofbit = False\<rparr>
            = (H, \<lparr>buf = newline # ?r3, failbit = False, eofbit = False\<rparr>)"
    using get_int_text [of "[CHR '' '']" newline "nat H" ?r3] H
    by (simp add: isspace_simps not_isdigit_space)
  have g4: "get_float env \<lparr>buf = newline # ?r3, failbit = False, eofbit = False\<rparr>
            = (v, \<lparr>buf = rest, failbit = False, eofbit = (rest = [])\<rparr>)"
    using get_float_text [of "[newline]" tok rest env v] tok v
    by (simp add: isspace_simps)
  show ?thesis
    using g1 g2 g3 g4 by (simp add: pfm_tokens_def)
qed

lemma pfm_header_text:
  assumes W: "0 \<le> W" "W \<le> INT_MAX" and H: "0 \<le> H" "H \<le> INT_MAX"
    and tok: "tok \<noteq> []" "\<not> isspace (hd tok)" "float_token (tok @ c # body) = (tok, c # body)"
    and v: "strtof env tok = Some v"
  shows "pfm_header env (istream_open (''PF'' @ [newline] @ put_int W @ '' '' @ put_int H
                                        @ [newline] @ tok @ c # body))
         = Inr (3, W, H, v, \<lparr>buf = body, failbit = False, eofbit = False\<rparr>)"
  using pfm_tokens_text [OF W H tok v]
  by (simp add: pfm_header_def istream_get_def good_def)

lemma float_token_minus_one:
  "float_token (''-1.0'' @ newline # body) = (''-1.0'', newline # body)"
  by (simp add: float_token_def is_sign_def isdigit_def newline_def Let_def)

lemma float_token_one:
  "float_token (''1.0'' @ newline # body) = (''1.0'', newline # body)"
  "float_token ''1.0'' = (''1.0'', [])"
  by (simp_all add: float_token_def is_sign_def isdigit_def newline_def Let_def)

lemma float_order_examples:
  "float_ge f_one f_zero" "float_lt f_minus_one f_zero" "\<not> float_ge f_minus_one f_zero"
  "fabs f_minus_one = f_one"
  by (simp_all add: float_literals float_order fabs_def)

lemma put_int_examples: "put_int 0 = ''0''" "put_int 1 = ''1''" "put_int 2 = ''2''"
  by (simp_all add: put_int_def decimal_digits.simps char_of_def bit_Suc_0_iff)

lemma float_lt_not_ge: "float_lt x y \<Longrightarrow> \<not> float_ge x y"
  by (auto simp: float_lt_def float_gt_def float_ge_def)

subsection \<open>The decoder's branches\<close>

lemma istream_get_good: "\<not> failbit (istream_get s) \<Longrightarrow> good (istream_get s)"
  by (auto simp: istream_get_def good_def split: if_splits list.splits)

lemma pfm_header_good:
  "pfm_header env s0 = Inr (C, W, H, scale, s) \<Longrightarrow> good s \<and> (C = 3 \<or> C = 1)"
  by (auto simp: pfm_header_def pfm_tokens_def Let_def istream_get_good
           split: sum.splits prod.splits if_splits)

lemma get_float_eof:
  "get_float env s3 = (v, s4) \<Longrightarrow> \<not> failbit s4 \<Longrightarrow> eofbit s4 = (buf s4 = [])"
  by (auto simp: get_float_def sentry_def Let_def split: prod.splits if_splits option.splits)

lemma pfm_tokens_eof:
  "pfm_tokens env s0 = Inr (C, W, H, scale, s) \<Longrightarrow> \<not> failbit s \<Longrightarrow> eofbit s = (buf s = [])"
  by (auto simp: pfm_tokens_def Let_def split: prod.splits if_splits dest: get_float_eof)

lemma pfm_header_from_tokens:
  assumes "pfm_tokens env s0 = Inr (C, W, H, scale, s)" and "\<not> failbit s" and "buf s \<noteq> []"
  shows "pfm_header env s0 = Inr (C, W, H, scale, s\<lparr>buf := tl (buf s)\<rparr>)"
proof -
  have "\<not> eofbit s" using pfm_tokens_eof [OF assms(1,2)] assms(3) by simp
  with assms show ?thesis
    by (cases "buf s") (simp_all add: pfm_header_def istream_get_def good_def)
qed

lemma pfm_decode_big_endian:
  "pfm_header env (istream_open bytes) = Inr (C, W, H, scale, s) \<Longrightarrow> float_ge scale f_zero
   \<Longrightarrow> pfm_decode env bytes = Inl (runtime_error ''big-endian PFM images are not supported'')"
  by (simp add: pfm_decode_def)

lemma pfm_decode_little_endian:
  assumes "pfm_header env (istream_open bytes) = Inr (C, W, H, scale, s)" and "\<not> float_ge scale f_zero"
    and "H * W * C \<le> INT_MAX" and "0 \<le> H" and "0 \<le> W"
  shows "pfm_decode env bytes =
         (if failbit ((after_read ^^ (nat H * nat W * nat C)) s)
          then Inl (runtime_error ''invalid PFM image'')
          else Inr (snd (read_store_all env (nat H) (nat W) (nat C) (fabs scale)
                           (s, Tensor_new [H, W, C] ''hwc''))))"
proof -
  have C: "0 < C" using pfm_header_good [OF assms(1)] by auto
  have "length (data (Tensor_new [H, W, C] ''hwc'')) = nat H * (nat W * nat C)"
    using assms(4,5) C by (simp add: Tensor_new_def nat_mult_distrib mult_nonneg_nonneg)
  then have px: "pfm_read_pixels env H W C (fabs scale) (s, Tensor_new [H, W, C] ''hwc'')
        = Inr (read_store_all env (nat H) (nat W) (nat C) (fabs scale) (s, Tensor_new [H, W, C] ''hwc''))"
    using assms(3) by (rule pfm_read_pixels_exact [rotated])
  obtain s' img' where r: "read_store_all env (nat H) (nat W) (nat C) (fabs scale)
                             (s, Tensor_new [H, W, C] ''hwc'') = (s', img')"
    by (cases "read_store_all env (nat H) (nat W) (nat C) (fabs scale) (s, Tensor_new [H, W, C] ''hwc'')")
  have "s' = (after_read ^^ (nat H * nat W * nat C)) s"
    using fst_read_store_all [of env "nat H" "nat W" "nat C" "fabs scale" "(s, Tensor_new [H, W, C] ''hwc'')"] r
    by simp
  with assms(1,2) px r show ?thesis by (simp add: pfm_decode_def)
qed

text \<open>
  C6, amended. If the header parses up to the scale token, at least one byte follows the
  scale token, and the scale is \<open>>= 0\<close>, then \<open>loadImagePFM\<close> throws
  \<open>std::runtime_error\<close> with the message "big-endian PFM images are not supported" and
  returns no tensor.
\<close>

theorem big_endian_rejected:
  assumes "contents fs filename = Some bytes"
    and "pfm_tokens env (istream_open bytes) = Inr (C, W, H, scale, s)"
    and "\<not> failbit s" and "buf s \<noteq> []"
    and "float_ge scale f_zero"
  shows "loadImagePFM env fs filename
         = Inl (runtime_error ''big-endian PFM images are not supported'')"
proof -
  have "pfm_header env (istream_open bytes) = Inr (C, W, H, scale, s\<lparr>buf := tl (buf s)\<rparr>)"
    using assms(2-4) by (rule pfm_header_from_tokens)
  then have "pfm_decode env bytes = Inl (runtime_error ''big-endian PFM images are not supported'')"
    using assms(5) by (rule pfm_decode_big_endian)
  with assms(1) show ?thesis by (simp add: loadImagePFM_def)
qed

lemma example_strtof:
  "strtof example_env ''-1.0'' = Some f_minus_one" "strtof example_env ''1.0'' = Some f_one"
  by (simp_all add: example_env_def)

lemma example_files:
  "contents example_fs ''eof.pfm'' = Some (pfm_text ''1'' ''1'' ''1.0'')"
  "contents example_fs ''big.pfm'' = Some (pfm_text ''1'' ''1'' ''1.0'' @ [newline])"
  "contents example_fs ''short.pfm'' = Some (pfm_text ''1'' ''1'' ''-1.0'' @ [newline] @ ''12345'')"
  "contents example_fs ''empty.pfm'' = Some (pfm_text ''0'' ''0'' ''-1.0'' @ [newline])"
  "contents example_fs ''rows.pfm'' = Some (pfm_text ''1'' ''2'' ''-1.0'' @ [newline]
                @ concat (map float_to_bytes [f_one, f_one, f_one, f_two, f_two, f_two]))"
  by (simp_all add: example_fs_def)

lemma INT_MAX_examples: "0 \<le> INT_MAX" "1 \<le> INT_MAX" "2 \<le> INT_MAX"
  by (simp_all add: INT_MAX_def)

lemma tokens_eof_pfm:
  "pfm_tokens example_env (istream_open (pfm_text ''1'' ''1'' ''1.0''))
   = Inr (3, 1, 1, f_one, \<lparr>buf = [], failbit = False, eofbit = True\<rparr>)"
  using pfm_tokens_text [of 1 1 "''1.0''" "[]" example_env f_one]
  by (simp add: pfm_text_def put_int_examples INT_MAX_examples float_token_one example_strtof isspace_def)

lemma tokens_big_pfm:
  "pfm_tokens example_env (istream_open (pfm_text ''1'' ''1'' ''1.0'' @ [newline]))
   = Inr (3, 1, 1, f_one, \<lparr>buf = [newline], failbit = False, eofbit = False\<rparr>)"
  using pfm_tokens_text [of 1 1 "''1.0''" "[newline]" example_env f_one] float_token_one(1) [of "[]"]
  by (simp add: pfm_text_def put_int_examples INT_MAX_examples example_strtof isspace_def)

theorem big_endian_rejected_witness:
  "loadImagePFM example_env example_fs ''big.pfm''
   = Inl (runtime_error ''big-endian PFM images are not supported'')"
  using big_endian_rejected [OF example_files(2) tokens_big_pfm]
  by (simp add: float_order_examples)

text \<open>
  C6 as stated fails: in \<open>eof.pfm\<close> the header parses up to the scale token, the
  scale is \<open>1.0\<close>, and the file ends there. \<open>file.get()\<close> sets \<open>failbit\<close>, and the
  decoder throws "invalid PFM image" before it looks at the scale.
\<close>

theorem big_endian_counterexample:
  "pfm_tokens example_env (istream_open (pfm_text ''1'' ''1'' ''1.0''))
     = Inr (3, 1, 1, f_one, \<lparr>buf = [], failbit = False, eofbit = True\<rparr>)
   \<and> float_ge f_one f_zero
   \<and> loadImagePFM example_env example_fs ''eof.pfm'' = Inl (runtime_error ''invalid PFM image'')
   \<and> loadImagePFM example_env example_fs ''eof.pfm''
       \<noteq> Inl (runtime_error ''big-endian PFM images are not supported'')"
proof -
  have "pfm_header example_env (istream_open (pfm_text ''1'' ''1'' ''1.0''))
        = Inl (runtime_error ''invalid PFM image'')"
    by (simp add: pfm_header_def tokens_eof_pfm istream_get_def good_def)
  then have "loadImagePFM example_env example_fs ''eof.pfm'' = Inl (runtime_error ''invalid PFM image'')"
    by (simp add: loadImagePFM_def example_files pfm_decode_def)
  then show ?thesis
    by (simp add: tokens_eof_pfm float_order_examples)
qed

text \<open>
  C7, amended. If the header is valid (it parses, width and height are positive and the
  scale is negative), the element count \<open>H*W*C\<close> is at most \<open>INT_MAX\<close> and the body
  holds fewer than \<open>H*W*C*4\<close> bytes, \<open>loadImagePFM\<close> throws \<open>std::runtime_error\<close> with
  the message "invalid PFM image"; no tensor is returned.
\<close>

theorem truncated_body_rejected:
  assumes "contents fs filename = Some bytes"
    and "pfm_header env (istream_open bytes) = Inr (C, W, H, scale, body)"
    and "float_lt scale f_zero" and "0 < W" and "0 < H"
    and "H * W * C \<le> INT_MAX"
    and "length (buf body) < nat (H * W * C * 4)"
  shows "loadImagePFM env fs filename = Inl (runtime_error ''invalid PFM image'')"
proof -
  have C: "0 < C" using pfm_header_good [OF assms(2)] by auto
  have "nat (H * W * C * 4) = 4 * (nat H * nat W * nat C)"
    using assms(4,5) C by (simp add: nat_mult_distrib)
  then have "failbit ((after_read ^^ (nat H * nat W * nat C)) body)"
    using assms(7) by (simp add: funpow_after_read_short)
  then have "pfm_decode env bytes = Inl (runtime_error ''invalid PFM image'')"
    using pfm_decode_little_endian [OF assms(2) float_lt_not_ge [OF assms(3)] assms(6)] assms(4,5)
    by simp
  with assms(1) show ?thesis by (simp add: loadImagePFM_def)
qed

lemma header_short_pfm:
  "pfm_header example_env (istream_open (pfm_text ''1'' ''1'' ''-1.0'' @ [newline] @ ''12345''))
   = Inr (3, 1, 1, f_minus_one, \<lparr>buf = ''12345'', failbit = False, eofbit = False\<rparr>)"
  using pfm_header_text [of 1 1 "''-1.0''" newline "''12345''" example_env f_minus_one]
    float_token_minus_one [of "''12345''"]
  by (simp add: pfm_text_def put_int_examples INT_MAX_examples example_strtof isspace_def)

theorem truncated_body_rejected_witness:
  "loadImagePFM example_env example_fs ''short.pfm'' = Inl (runtime_error ''invalid PFM image'')"
  using truncated_body_rejected [OF example_files(3) header_short_pfm]
  by (simp add: float_order_examples INT_MAX_def)

lemma put_int_30000: "put_int 30000 = ''30000''"
  by (simp add: put_int_def decimal_digits.simps char_of_def bit_Suc_0_iff)

lemma header_huge_pfm:
  "pfm_header example_env (istream_open (pfm_text ''30000'' ''30000'' ''-1.0'' @ [newline] @ body))
   = Inr (3, 30000, 30000, f_minus_one, \<lparr>buf = body, failbit = False, eofbit = False\<rparr>)"
  using pfm_header_text [of 30000 30000 "''-1.0''" newline body example_env f_minus_one]
    float_token_minus_one [of body]
  by (simp add: pfm_text_def put_int_30000 INT_MAX_def example_strtof isspace_def)

lemma huge_index: "pfm_index 30000 30000 3 0 0 0 = - 1595057296"
  by (simp add: pfm_index_def int_add_def int_sub_def int_mul_def wrap_int_def)

lemma pfm_decode_huge:
  "pfm_decode example_env (pfm_text ''30000'' ''30000'' ''-1.0'' @ [newline] @ body)
   = Inl undefined_behaviour"
proof -
  have "pfm_read_pixels example_env 30000 30000 3 scale st = Inl undefined_behaviour" for scale st
    by (rule pfm_read_pixels_outside) (simp_all add: huge_index)
  then show ?thesis
    unfolding pfm_decode_def header_huge_pfm by (simp add: float_order_examples)
qed

text \<open>
  C7 as stated fails where the element count leaves the range of \<open>int\<close>. The 20 bytes
  of \<open>huge.pfm\<close> are a header that parses, with positive width and height and a
  negative scale, and no body. The first iteration computes the index
  \<open>((30000-1-0)*30000 + 0) * 3 + 0\<close>, which is 2699910000 and wraps around to
  -1595057296 in \<open>int\<close>: the store on line 115 is outside the buffer, before the check
  on line 120 is reached.
\<close>

theorem truncated_body_counterexample:
  "contents example_fs ''huge.pfm'' = Some (pfm_text ''30000'' ''30000'' ''-1.0'' @ [newline])
   \<and> pfm_header example_env (istream_open (pfm_text ''30000'' ''30000'' ''-1.0'' @ [newline]))
       = Inr (3, 30000, 30000, f_minus_one, \<lparr>buf = [], failbit = False, eofbit = False\<rparr>)
   \<and> float_lt f_minus_one f_zero
   \<and> length (buf \<lparr>buf = [], failbit = False, eofbit = False\<rparr>) < nat (30000 * 30000 * 3 * 4)
   \<and> loadImagePFM example_env example_fs ''huge.pfm'' = Inl undefined_behaviour
   \<and> loadImagePFM example_env example_fs ''huge.pfm'' \<noteq> Inl (runtime_error ''invalid PFM image'')"
proof -
  have cont: "contents example_fs ''huge.pfm'' = Some (pfm_text ''30000'' ''30000'' ''-1.0'' @ [newline])"
    by (simp add: example_fs_def)
  have "loadImagePFM example_env example_fs ''huge.pfm'' = Inl undefined_behaviour"
    using pfm_decode_huge [of "[]"] by (simp add: loadImagePFM_def cont)
  then show ?thesis
    using cont header_huge_pfm [of "[]"] by (simp add: float_order_examples)
qed

lemma fold_const_id: "fold (\<lambda>x. id) xs st = st"
  by (induction xs) simp_all

text \<open>
  C10. The decoder does not check that the declared dimensions are positive: whenever
  the header parses with a negative scale and declares width 0 or height 0,
  \<open>loadImagePFM\<close> succeeds and returns a tensor with no elements, which breaks the
  invariant \<open>H>0\<close>, \<open>W>0\<close> of the data model. The file \<open>empty.pfm\<close> is such an input.
\<close>

theorem zero_dimension_accepted:
  assumes "contents fs filename = Some bytes"
    and "pfm_header env (istream_open bytes) = Inr (C, W, H, scale, body)"
    and "float_lt scale f_zero" and "W = 0 \<or> H = 0"
  shows "loadImagePFM env fs filename = Inr \<lparr>dims = [H, W, C], format = ''hwc'', data = []\<rparr>
         \<and> \<not> tensor_invariant \<lparr>dims = [H, W, C], format = ''hwc'', data = []\<rparr>"
proof -
  have loops: "pfm_read_pixels env H W C (fabs scale) st = Inr st" for st
    using assms(4) by (auto simp: pfm_read_pixels_def fold_const_id)
  have good: "\<not> failbit body" using pfm_header_good [OF assms(2)] by (simp add: good_def)
  have "Tensor_new [H, W, C] ''hwc'' = \<lparr>dims = [H, W, C], format = ''hwc'', data = []\<rparr>"
    using assms(4) by (auto simp: Tensor_new_def)
  then have "pfm_decode env bytes = Inr \<lparr>dims = [H, W, C], format = ''hwc'', data = []\<rparr>"
    using assms(2) float_lt_not_ge [OF assms(3)] good loops by (simp add: pfm_decode_def)
  moreover have "\<not> tensor_invariant \<lparr>dims = [H, W, C], format = ''hwc'', data = []\<rparr>"
    using assms(4) by (auto simp: tensor_invariant_def)
  ultimately show ?thesis using assms(1) by (simp add: loadImagePFM_def)
qed

lemma header_empty_pfm:
  "pfm_header example_env (istream_open (pfm_text ''0'' ''0'' ''-1.0'' @ [newline]))
   = Inr (3, 0, 0, f_minus_one, \<lparr>buf = [], failbit = False, eofbit = False\<rparr>)"
  using pfm_header_text [of 0 0 "''-1.0''" newline "[]" example_env f_minus_one]
    float_token_minus_one [of "[]"]
  by (simp add: pfm_text_def put_int_examples INT_MAX_examples example_strtof isspace_def)

theorem zero_dimension_accepted_witness:
  "loadImagePFM example_env example_fs ''empty.pfm''
     = Inr \<lparr>dims = [0, 0, 3], format = ''hwc'', data = []\<rparr>
   \<and> \<not> tensor_invariant \<lparr>dims = [0, 0, 3], format = ''hwc'', data = []\<rparr>"
  using zero_dimension_accepted [OF example_files(4) header_empty_pfm]
  by (simp add: float_order_examples)

subsection \<open>Writing a run of elements\<close>

lemma write_seg_length: "pos + length vs \<le> length d \<Longrightarrow> length (write_seg d pos vs) = length d"
  by (simp add: write_seg_def)

lemma write_seg_empty: "write_seg d pos [] = d"
  by (simp add: write_seg_def)

lemma write_seg_single: "pos < length d \<Longrightarrow> d[pos := v] = write_seg d pos [v]"
  by (simp add: write_seg_def upd_conv_take_nth_drop)

lemma write_seg_append:
  "pos + length vs + length ws \<le> length d
   \<Longrightarrow> write_seg (write_seg d pos vs) (pos + length vs) ws = write_seg d pos (vs @ ws)"
  by (simp add: write_seg_def ac_simps)

lemma write_seg_nth:
  "pos + length vs \<le> length d \<Longrightarrow> i < length d
   \<Longrightarrow> write_seg d pos vs ! i = (if pos \<le> i \<and> i < pos + length vs then vs ! (i - pos) else d ! i)"
  by (auto simp: write_seg_def nth_append)

lemma sample_at_drop: "sample_at (drop (4 * m) bytes) k = sample_at bytes (m + k)"
  by (simp add: sample_at_def add.commute distrib_left)

lemma decoded_length: "length (decoded env scale bytes n) = n"
  by (simp add: decoded_def)

lemma decoded_nth: "k < n \<Longrightarrow> decoded env scale bytes n ! k = fmul env (sample_at bytes k) scale"
  by (simp add: decoded_def)

lemma decoded_add:
  "decoded env scale bytes m @ decoded env scale (drop (4 * m) bytes) n = decoded env scale bytes (m + n)"
proof -
  have "[0..<m + n] = [0..<m] @ [m..<m + n]"
    using upt_add_eq_append [of 0 m n] by simp
  moreover have "map (\<lambda>k. k + m) [0..<n] = [m..<n + m]"
    by (rule map_add_upt)
  ultimately have "[0..<m + n] = [0..<m] @ map (\<lambda>k. m + k) [0..<n]"
    by (simp only: add.commute)
  then show ?thesis
    by (simp add: decoded_def sample_at_drop comp_def)
qed

subsection \<open>The pixel loops on a long enough body\<close>

lemma istream_read_good:
  "good s \<Longrightarrow> 4 \<le> length (buf s) \<Longrightarrow> istream_read s 4 dst = (take 4 (buf s), s\<lparr>buf := drop 4 (buf s)\<rparr>)"
  by (simp add: istream_read_def)

lemma read_store_good:
  assumes "good s" and "4 \<le> length (buf s)" and "i < length (data img)"
  shows "read_store env scale i (s, img)
         = (s\<lparr>buf := drop 4 (buf s)\<rparr>, img\<lparr>data := write_seg (data img) i (decoded env scale (buf s) 1)\<rparr>)"
  using assms
  by (simp add: read_store_def istream_read_good write_seg_single decoded_def sample_at_def)

lemma read_run:
  assumes "good s"
  shows "4 * n \<le> length (buf s) \<Longrightarrow> pos + n \<le> length (data img)
    \<Longrightarrow> fold (\<lambda>c. read_store env scale (pos + c)) [0..<n] (s, img)
        = (s\<lparr>buf := drop (4 * n) (buf s)\<rparr>,
           img\<lparr>data := write_seg (data img) pos (decoded env scale (buf s) n)\<rparr>)"
proof (induction n)
  case 0
  show ?case by (simp add: decoded_def write_seg_empty)
next
  case (Suc n)
  let ?s = "s\<lparr>buf := drop (4 * n) (buf s)\<rparr>"
  let ?d = "write_seg (data img) pos (decoded env scale (buf s) n)"
  have ih: "fold (\<lambda>c. read_store env scale (pos + c)) [0..<n] (s, img) = (?s, img\<lparr>data := ?d\<rparr>)"
    using Suc by simp
  have len: "length ?d = length (data img)"
    using Suc.prems by (simp add: write_seg_length decoded_length)
  have gs: "good ?s" using assms by (simp add: good_def)
  have "read_store env scale (pos + n) (?s, img\<lparr>data := ?d\<rparr>)
        = (?s\<lparr>buf := drop 4 (buf ?s)\<rparr>,
           img\<lparr>data := ?d\<rparr>\<lparr>data := write_seg (data (img\<lparr>data := ?d\<rparr>)) (pos + n) (decoded env scale (buf ?s) 1)\<rparr>)"
    using gs Suc.prems len by (intro read_store_good) simp_all
  moreover have "write_seg ?d (pos + n) (decoded env scale (drop (4 * n) (buf s)) 1)
                 = write_seg (data img) pos (decoded env scale (buf s) (n + 1))"
    using write_seg_append [of pos "decoded env scale (buf s) n" "decoded env scale (drop (4 * n) (buf s)) 1" "data img"]
      Suc.prems decoded_add [of env scale "buf s" n 1]
    by (simp add: decoded_length)
  ultimately show ?case
    using ih by (simp add: add.commute)
qed

lemma read_row:
  assumes "good s"
  shows "4 * (n * C) \<le> length (buf s) \<Longrightarrow> rb + n * C \<le> length (data img)
    \<Longrightarrow> fold (\<lambda>w. fold (\<lambda>c. read_store env scale (rb + w * C + c)) [0..<C]) [0..<n] (s, img)
        = (s\<lparr>buf := drop (4 * (n * C)) (buf s)\<rparr>,
           img\<lparr>data := write_seg (data img) rb (decoded env scale (buf s) (n * C))\<rparr>)"
proof (induction n)
  case 0
  show ?case by (simp add: decoded_def write_seg_empty)
next
  case (Suc n)
  let ?s = "s\<lparr>buf := drop (4 * (n * C)) (buf s)\<rparr>"
  let ?d = "write_seg (data img) rb (decoded env scale (buf s) (n * C))"
  have ih: "fold (\<lambda>w. fold (\<lambda>c. read_store env scale (rb + w * C + c)) [0..<C]) [0..<n] (s, img)
            = (?s, img\<lparr>data := ?d\<rparr>)"
    using Suc by simp
  have len: "length ?d = length (data img)"
    using Suc.prems by (simp add: write_seg_length decoded_length)
  have gs: "good ?s" using assms by (simp add: good_def)
  have "fold (\<lambda>c. read_store env scale (rb + n * C + c)) [0..<C] (?s, img\<lparr>data := ?d\<rparr>)
        = (?s\<lparr>buf := drop (4 * C) (buf ?s)\<rparr>,
           img\<lparr>data := ?d\<rparr>\<lparr>data := write_seg (data (img\<lparr>data := ?d\<rparr>)) (rb + n * C) (decoded env scale (buf ?s) C)\<rparr>)"
    using Suc.prems len by (intro read_run [OF gs]) simp_all
  moreover have "write_seg ?d (rb + n * C) (decoded env scale (drop (4 * (n * C)) (buf s)) C)
                 = write_seg (data img) rb (decoded env scale (buf s) (n * C + C))"
    using write_seg_append [of rb "decoded env scale (buf s) (n * C)" "decoded env scale (drop (4 * (n * C)) (buf s)) C" "data img"]
      Suc.prems decoded_add [of env scale "buf s" "n * C" C]
    by (simp add: decoded_length)
  ultimately show ?case
    using ih by (simp add: add.commute distrib_left)
qed

lemma read_rows:
  assumes "good s" and "4 * (H * (W * C)) \<le> length (buf s)" and "H * (W * C) \<le> length (data img)"
  shows "n \<le> H \<Longrightarrow>
    \<exists>d'. fold (\<lambda>h. fold (\<lambda>w. fold (\<lambda>c.
              read_store env scale ((H - 1 - h) * (W * C) + w * C + c)) [0..<C]) [0..<W])
            [0..<n] (s, img)
          = (s\<lparr>buf := drop (4 * (n * (W * C))) (buf s)\<rparr>, img\<lparr>data := d'\<rparr>)
        \<and> length d' = length (data img)
        \<and> (\<forall>h<n. \<forall>j<W * C. d' ! ((H - 1 - h) * (W * C) + j)
                               = fmul env (sample_at (buf s) (h * (W * C) + j)) scale)"
proof (induction n)
  case 0
  show ?case by (rule exI [of _ "data img"]) simp
next
  case (Suc n)
  then have nH: "n < H" by simp
  let ?WC = "W * C"
  let ?s = "s\<lparr>buf := drop (4 * (n * ?WC)) (buf s)\<rparr>"
  let ?rb = "(H - 1 - n) * ?WC"
  from Suc obtain d' where
    ih: "fold (\<lambda>h. fold (\<lambda>w. fold (\<lambda>c.
              read_store env scale ((H - 1 - h) * ?WC + w * C + c)) [0..<C]) [0..<W])
            [0..<n] (s, img) = (?s, img\<lparr>data := d'\<rparr>)"
    and len: "length d' = length (data img)"
    and old: "\<forall>h<n. \<forall>j<?WC. d' ! ((H - 1 - h) * ?WC + j) = fmul env (sample_at (buf s) (h * ?WC + j)) scale"
    by auto
  let ?row = "decoded env scale (drop (4 * (n * ?WC)) (buf s)) ?WC"
  let ?d = "write_seg d' ?rb ?row"
  have gs: "good ?s" using assms(1) by (simp add: good_def)
  have "Suc n * ?WC \<le> H * ?WC" using nH by (intro mult_le_mono1) simp
  then have bytes: "4 * ?WC \<le> length (buf ?s)" using assms(2) by simp
  have "(H - 1 - n) + 1 \<le> H" using nH by simp
  then have "((H - 1 - n) + 1) * ?WC \<le> H * ?WC" by (intro mult_le_mono1)
  then have room: "?rb + ?WC \<le> length d'" using assms(3) len by (simp add: add_mult_distrib)
  have row: "fold (\<lambda>w. fold (\<lambda>c. read_store env scale (?rb + w * C + c)) [0..<C]) [0..<W]
               (?s, img\<lparr>data := d'\<rparr>)
             = (?s\<lparr>buf := drop (4 * ?WC) (buf ?s)\<rparr>, img\<lparr>data := d'\<rparr>\<lparr>data := write_seg (data (img\<lparr>data := d'\<rparr>)) ?rb (decoded env scale (buf ?s) ?WC)\<rparr>)"
    using bytes room by (intro read_row [OF gs]) simp_all
  have step: "fold (\<lambda>h. fold (\<lambda>w. fold (\<lambda>c.
              read_store env scale ((H - 1 - h) * ?WC + w * C + c)) [0..<C]) [0..<W])
            [0..<Suc n] (s, img)
          = (s\<lparr>buf := drop (4 * (Suc n * ?WC)) (buf s)\<rparr>, img\<lparr>data := ?d\<rparr>)"
    using ih row by (simp add: add.commute distrib_left)
  have len': "length ?d = length (data img)"
    using room len by (simp add: write_seg_length decoded_length)
  have new: "?d ! ((H - 1 - h) * ?WC + j) = fmul env (sample_at (buf s) (h * ?WC + j)) scale"
    if h: "h < Suc n" and j: "j < ?WC" for h j
  proof (cases "h = n")
    case True
    have "?d ! (?rb + j) = ?row ! j"
      using room j by (simp add: write_seg_nth decoded_length)
    also have "\<dots> = fmul env (sample_at (buf s) (n * ?WC + j)) scale"
      using j by (simp add: decoded_nth sample_at_drop)
    finally show ?thesis using True by simp
  next
    case False
    with h have hn: "h < n" by simp
    have "(H - 1 - n) + 1 \<le> H - 1 - h" using hn nH by simp
    then have "((H - 1 - n) + 1) * ?WC \<le> (H - 1 - h) * ?WC" by (intro mult_le_mono1)
    then have above: "?rb + ?WC \<le> (H - 1 - h) * ?WC + j" by (simp add: add_mult_distrib)
    have "(H - 1 - h) + 1 \<le> H" using hn nH by simp
    then have "((H - 1 - h) + 1) * ?WC \<le> H * ?WC" by (intro mult_le_mono1)
    then have inside: "(H - 1 - h) * ?WC + j < length d'"
      using j assms(3) len by (simp add: add_mult_distrib)
    have "?d ! ((H - 1 - h) * ?WC + j) = d' ! ((H - 1 - h) * ?WC + j)"
      using room inside above by (simp add: write_seg_nth decoded_length)
    then show ?thesis using old hn j by simp
  qed
  show ?case
    using step len' new by (intro exI [of _ ?d]) simp
qed

subsection \<open>A float in memory and in the file\<close>

lemma nat_bytes:
  assumes "n < 2 ^ 32"
  shows "n mod 256 + 256 * (n div 256 mod 256 + 256 * (n div 65536 mod 256 + 256 * (n div 16777216 mod 256))) = (n::nat)"
proof -
  have a: "n div 16777216 < 256" using assms by simp
  have b1: "n div 65536 div 256 = n div 16777216" by (simp add: div_mult2_eq [symmetric])
  have c1: "n div 256 div 256 = n div 65536" by (simp add: div_mult2_eq [symmetric])
  have b: "n div 65536 = (n div 65536) mod 256 + 256 * (n div 16777216)"
    using mod_mult_div_eq [of "n div 65536" 256] b1 by simp
  have c: "n div 256 = (n div 256) mod 256 + 256 * (n div 65536)"
    using mod_mult_div_eq [of "n div 256" 256] c1 by simp
  have d: "n = n mod 256 + 256 * (n div 256)" by simp
  show ?thesis using a b c d by simp
qed

lemma float_to_bytes_length: "length (float_to_bytes x) = 4"
  by (simp add: float_to_bytes_def)

lemma float_of_to_bytes: "float_of_bytes (float_to_bytes x) = x"
proof -
  have "unat x < 2 ^ 32" using unsigned_less [of x] by simp
  then have "foldr (\<lambda>c r. of_char c + 256 * r) (float_to_bytes x) 0 = unat x"
    unfolding float_to_bytes_def using nat_bytes [of "unat x"] by simp
  then show ?thesis
    by (simp add: float_of_bytes_def)
qed

lemma sample_at_0: "sample_at (float_to_bytes x @ rest) 0 = x"
  by (simp add: sample_at_def float_to_bytes_length float_of_to_bytes)

subsection \<open>A complete body\<close>

lemma pfm_decode_complete:
  assumes hdr: "pfm_header env (istream_open bytes) = Inr (C, W, H, scale, body)"
    and neg: "float_lt scale f_zero" and W: "0 < W" and H: "0 < H"
    and fits: "H * W * C \<le> INT_MAX"
    and len: "nat (H * W * C * 4) \<le> length (buf body)"
  shows "\<exists>d. pfm_decode env bytes = Inr \<lparr>dims = [H, W, C], format = ''hwc'', data = d\<rparr>
             \<and> length d = nat H * (nat W * nat C)
             \<and> (\<forall>h<nat H. \<forall>j<nat W * nat C.
                   d ! ((nat H - 1 - h) * (nat W * nat C) + j)
                   = fmul env (sample_at (buf body) (h * (nat W * nat C) + j)) (fabs scale))"
proof -
  have C: "0 < C" and gb: "good body" using pfm_header_good [OF hdr] by auto
  have n4: "nat (H * W * C * 4) = 4 * (nat H * (nat W * nat C))"
    using W H C by (simp add: nat_mult_distrib)
  let ?img = "Tensor_new [H, W, C] ''hwc''"
  have dlen: "length (data ?img) = nat H * (nat W * nat C)"
    using W H C by (simp add: Tensor_new_def nat_mult_distrib)
  from read_rows [OF gb, of "nat H" "nat W" "nat C" ?img "nat H" env "fabs scale"] len n4 dlen
  obtain d' where
    run: "fold (\<lambda>h. fold (\<lambda>w. fold (\<lambda>c.
              read_store env (fabs scale) ((nat H - 1 - h) * (nat W * nat C) + w * nat C + c))
            [0..<nat C]) [0..<nat W]) [0..<nat H] (body, ?img)
          = (body\<lparr>buf := drop (4 * (nat H * (nat W * nat C))) (buf body)\<rparr>, ?img\<lparr>data := d'\<rparr>)"
    and len': "length d' = length (data ?img)"
    and vals: "\<forall>h<nat H. \<forall>j<nat W * nat C. d' ! ((nat H - 1 - h) * (nat W * nat C) + j)
                 = fmul env (sample_at (buf body) (h * (nat W * nat C) + j)) (fabs scale)"
    by auto
  have px: "read_store_all env (nat H) (nat W) (nat C) (fabs scale) (body, ?img)
            = (body\<lparr>buf := drop (4 * (nat H * (nat W * nat C))) (buf body)\<rparr>, ?img\<lparr>data := d'\<rparr>)"
    using run by (simp only: read_store_all_def)
  have ok: "\<not> failbit ((after_read ^^ (nat H * nat W * nat C)) body)"
    using funpow_after_read_good [OF gb, of "nat H * nat W * nat C"] len n4 gb
    by (simp add: good_def mult.assoc)
  have "pfm_decode env bytes = Inr (?img\<lparr>data := d'\<rparr>)"
    using pfm_decode_little_endian [OF hdr float_lt_not_ge [OF neg] fits] W H ok px by simp
  then have "pfm_decode env bytes = Inr \<lparr>dims = [H, W, C], format = ''hwc'', data = d'\<rparr>"
    by (simp add: Tensor_new_def)
  with len' dlen vals show ?thesis by auto
qed

text \<open>
  C4, amended. For a well-formed input (the header parses with positive width and
  height and a negative scale \<open>s\<close>, and the body holds at least \<open>H*W*C*4\<close> bytes) whose
  element count \<open>H*W*C\<close> is at most \<open>INT_MAX\<close>, the decoder returns a tensor of shape
  \<open>[H,W,C]\<close> in which the sample stored at \<open>(h, w, c)\<close> of the body, row 0 being the
  first on disk, is found in row \<open>H-1-h\<close> at \<open>(w, c)\<close>, multiplied by \<open>|s|\<close>.
\<close>

theorem rows_flipped_and_scaled:
  assumes "contents fs filename = Some bytes"
    and "pfm_header env (istream_open bytes) = Inr (C, W, H, scale, body)"
    and "float_lt scale f_zero" and "0 < W" and "0 < H"
    and "H * W * C \<le> INT_MAX"
    and "nat (H * W * C * 4) \<le> length (buf body)"
    and "h < nat H" and "w < nat W" and "c < nat C"
  shows "\<exists>t. loadImagePFM env fs filename = Inr t \<and> dims t = [H, W, C] \<and> format t = ''hwc''
           \<and> length (data t) = nat (H * W * C)
           \<and> data t ! hwc_index (nat W) (nat C) (nat H - 1 - h) w c
             = fmul env (sample_at (buf body) (hwc_index (nat W) (nat C) h w c)) (fabs scale)"
proof -
  from pfm_decode_complete [OF assms(2-7)] obtain d where
    dec: "pfm_decode env bytes = Inr \<lparr>dims = [H, W, C], format = ''hwc'', data = d\<rparr>"
    and len: "length d = nat H * (nat W * nat C)"
    and vals: "\<forall>h<nat H. \<forall>j<nat W * nat C. d ! ((nat H - 1 - h) * (nat W * nat C) + j)
                 = fmul env (sample_at (buf body) (h * (nat W * nat C) + j)) (fabs scale)"
    by auto
  have C: "0 < C" using pfm_header_good [OF assms(2)] by auto
  have "w * nat C + c < w * nat C + nat C" using assms(10) by simp
  also have "\<dots> = (w + 1) * nat C" by simp
  also have "\<dots> \<le> nat W * nat C" using assms(9) by (intro mult_le_mono1) simp
  finally have j: "w * nat C + c < nat W * nat C" .
  have "d ! ((nat H - 1 - h) * (nat W * nat C) + (w * nat C + c))
        = fmul env (sample_at (buf body) (h * (nat W * nat C) + (w * nat C + c))) (fabs scale)"
    using vals assms(8) j by blast
  then have "d ! hwc_index (nat W) (nat C) (nat H - 1 - h) w c
             = fmul env (sample_at (buf body) (hwc_index (nat W) (nat C) h w c)) (fabs scale)"
    by (simp add: hwc_index_def algebra_simps)
  moreover have "length d = nat (H * W * C)"
    using len assms(4,5) C by (simp add: nat_mult_distrib)
  ultimately show ?thesis
    using dec assms(1) by (simp add: loadImagePFM_def)
qed

lemma header_rows_pfm:
  "pfm_header example_env (istream_open (pfm_text ''1'' ''2'' ''-1.0'' @ [newline] @ body))
   = Inr (3, 1, 2, f_minus_one, \<lparr>buf = body, failbit = False, eofbit = False\<rparr>)"
  using pfm_header_text [of 1 2 "''-1.0''" newline body example_env f_minus_one]
    float_token_minus_one [of body]
  by (simp add: pfm_text_def put_int_examples INT_MAX_examples example_strtof isspace_def)

theorem rows_flipped_and_scaled_witness:
  "\<exists>t. loadImagePFM example_env example_fs ''rows.pfm'' = Inr t \<and> dims t = [2, 1, 3]
       \<and> format t = ''hwc'' \<and> length (data t) = 6 \<and> data t ! 3 = f_one"
  using rows_flipped_and_scaled [OF example_files(5) header_rows_pfm, of 0 0 0]
  by (simp add: float_order_examples float_to_bytes_length hwc_index_def sample_at_0 example_ops
        INT_MAX_def)

text \<open>
  C4 as stated fails where the element count leaves the range of \<open>int\<close>. The file
  \<open>full.pfm\<close> is well-formed: its header parses, with positive width and height and a
  negative scale, and its body holds all the \<open>30000*30000*3*4\<close> bytes declared. The
  index of the first sample, 2699910000, wraps around to -1595057296 in \<open>int\<close>: the
  store on line 115 is outside the buffer and no tensor is returned.
\<close>

theorem rows_flipped_counterexample:
  "contents example_fs ''full.pfm''
     = Some (pfm_text ''30000'' ''30000'' ''-1.0'' @ [newline] @ replicate 10800000000 (CHR 0x00))
   \<and> pfm_header example_env (istream_open
         (pfm_text ''30000'' ''30000'' ''-1.0'' @ [newline] @ replicate 10800000000 (CHR 0x00)))
       = Inr (3, 30000, 30000, f_minus_one,
              \<lparr>buf = replicate 10800000000 (CHR 0x00), failbit = False, eofbit = False\<rparr>)
   \<and> float_lt f_minus_one f_zero
   \<and> nat (30000 * 30000 * 3 * 4) \<le> length (replicate 10800000000 (CHR 0x00))
   \<and> loadImagePFM example_env example_fs ''full.pfm'' = Inl undefined_behaviour
   \<and> (\<nexists>t. loadImagePFM example_env example_fs ''full.pfm'' = Inr t)"
proof -
  have cont: "contents example_fs ''full.pfm''
     = Some (pfm_text ''30000'' ''30000'' ''-1.0'' @ [newline] @ replicate 10800000000 (CHR 0x00))"
    by (simp add: example_fs_def)
  have load: "loadImagePFM example_env example_fs ''full.pfm'' = Inl undefined_behaviour"
    unfolding loadImagePFM_def cont by (simp only: option.case pfm_decode_huge)
  have len: "nat (30000 * 30000 * 3 * 4) \<le> length (replicate 10800000000 (CHR 0x00))"
    by (simp only: length_replicate)
  have none: "\<nexists>t. loadImagePFM example_env example_fs ''full.pfm'' = Inr t"
    using load by simp
  show ?thesis
    by (intro conjI cont header_huge_pfm float_order_examples(2) len load none)
qed

section \<open>Properties of the simple-float encoder\<close>

lemma fold_append_concat: "fold (\<lambda>x file. file @ g x) xs acc = acc @ concat (map g xs)"
  by (induction xs arbitrary: acc) simp_all

lemma fold_append_concat_fun: "fold (\<lambda>x file. file @ g x) xs = (\<lambda>acc. acc @ concat (map g xs))"
  by (rule ext) (rule fold_append_concat)

lemma concat_map_nested: "concat (map (\<lambda>x. concat (map g (F x))) xs) = concat (map g (concat (map F xs)))"
  by (induction xs) simp_all

lemma map_upt_blocks: "concat (map (\<lambda>w. map (\<lambda>c. g (w * C + c)) [0..<C]) [0..<W]) = map g [0..<W * C]"
proof (induction W)
  case 0
  show ?case by simp
next
  case (Suc W)
  have "[0..<W * C + C] = [0..<W * C] @ [W * C..<W * C + C]"
    using upt_add_eq_append [of 0 "W * C" C] by simp
  moreover have "map (\<lambda>k. k + W * C) [0..<C] = [W * C..<C + W * C]"
    by (rule map_add_upt)
  ultimately have "[0..<W * C + C] = [0..<W * C] @ map (\<lambda>c. W * C + c) [0..<C]"
    by (simp only: add.commute)
  then have "map g [0..<Suc W * C] = map g [0..<W * C] @ map (\<lambda>c. g (W * C + c)) [0..<C]"
    by (simp add: add.commute comp_def)
  with Suc show ?case by simp
qed

lemma flat_nth:
  "(\<And>x. x \<in> set xs \<Longrightarrow> length (f x) = n) \<Longrightarrow> i < length xs \<Longrightarrow> j < n
   \<Longrightarrow> concat (map f xs) ! (i * n + j) = f (xs ! i) ! j"
proof (induction xs arbitrary: i)
  case Nil
  then show ?case by simp
next
  case (Cons x xs)
  show ?case
  proof (cases i)
    case 0
    with Cons.prems show ?thesis by (simp add: nth_append)
  next
    case (Suc k)
    have "concat (map f (x # xs)) ! (Suc k * n + j) = concat (map f xs) ! (k * n + j)"
      using Cons.prems(1) [of x] by (simp add: nth_append)
    also have "\<dots> = f (xs ! k) ! j"
      using Cons.prems Suc by (intro Cons.IH) simp_all
    finally show ?thesis using Suc by simp
  qed
qed

lemma sample_at_concat:
  "k < length xs \<Longrightarrow> sample_at (concat (map float_to_bytes xs) @ rest) k = xs ! k"
proof (induction xs arbitrary: k)
  case Nil
  then show ?case by simp
next
  case (Cons x xs)
  show ?case
  proof (cases k)
    case 0
    then show ?thesis using sample_at_0 [of x "concat (map float_to_bytes xs) @ rest"] by simp
  next
    case (Suc m)
    have "sample_at (concat (map float_to_bytes (x # xs)) @ rest) (Suc m)
          = sample_at (concat (map float_to_bytes xs) @ rest) m"
      by (simp add: sample_at_def float_to_bytes_length)
    then show ?thesis using Cons Suc by simp
  qed
qed

text \<open>The samples the encoder writes, in the order of the file.\<close>

lemma pfm_write_sample_loads:
  assumes "pfm_index H W C h w c = int i" and "i < length (data img)"
  shows "pfm_write_sample img H W C h w c (Inr file) = Inr (file @ float_to_bytes (data img ! i))"
  using assms by (simp add: pfm_write_sample_def tensor_get_def)

lemma pfm_encode_body:
  assumes "dims t = [H, W, 3]" and "0 < H" and "0 < W"
    and "H * W * 3 \<le> INT_MAX" and "length (data t) = nat (H * W * 3)"
  shows "pfm_encode t
         = Inr (''PF'' @ [newline] @ put_int W @ '' '' @ put_int H @ [newline] @ ''-1.0'' @ [newline]
           @ concat (map float_to_bytes
               (concat (map (\<lambda>h. map (\<lambda>j. data t ! ((nat H - 1 - h) * (nat W * 3) + j)) [0..<nat W * 3])
                  [0..<nat H]))))"
proof -
  let ?hdr = "''PF'' @ [newline] @ put_int W @ '' '' @ put_int H @ [newline] @ ''-1.0'' @ [newline]"
  let ?i = "\<lambda>h w c. (nat H - 1 - h) * (nat W * 3) + w * 3 + c"
  let ?g = "\<lambda>h w c. float_to_bytes (data t ! ?i h w c)"
  let ?P = "\<lambda>file :: string. True"
  have tlen: "length (data t) = nat H * (nat W * 3)"
    using assms(2,3,5) by (simp add: nat_mult_distrib)
  have sample: "pfm_write_sample t H W 3 h w c (Inr out) = Inr (out @ ?g h w c) \<and> ?P (out @ ?g h w c)"
    if "h < nat H" "w < nat W" "c < 3" for h w c out
  proof -
    have "c < nat 3" using that(3) by simp
    from pfm_index_exact [OF that(1,2) this assms(4)]
    have "pfm_index H W 3 h w c = int (?i h w c)" and "?i h w c < length (data t)"
      using tlen by simp_all
    then show ?thesis by (simp only: pfm_write_sample_loads simp_thms)
  qed
  have channels: "fold (\<lambda>c. pfm_write_sample t H W 3 h w c) [0..<3] (Inr out)
                  = Inr (fold (\<lambda>c file. file @ ?g h w c) [0..<3] out)
                \<and> ?P (fold (\<lambda>c file. file @ ?g h w c) [0..<3] out)"
    if "h < nat H" "w < nat W" for h w out
    using that by (intro fold_checked [where P = ?P] sample) simp_all
  have row: "fold (\<lambda>w. fold (\<lambda>c. pfm_write_sample t H W 3 h w c) [0..<3]) [0..<nat W] (Inr out)
             = Inr (fold (\<lambda>w. fold (\<lambda>c file. file @ ?g h w c) [0..<3]) [0..<nat W] out)
           \<and> ?P (fold (\<lambda>w. fold (\<lambda>c file. file @ ?g h w c) [0..<3]) [0..<nat W] out)"
    if "h < nat H" for h out
    using that by (intro fold_checked [where P = ?P] channels) simp_all
  have "fold (\<lambda>h. fold (\<lambda>w. fold (\<lambda>c. pfm_write_sample t H W 3 h w c) [0..<3]) [0..<nat W])
          [0..<nat H] (Inr ?hdr)
        = Inr (fold (\<lambda>h. fold (\<lambda>w. fold (\<lambda>c file. file @ ?g h w c) [0..<3]) [0..<nat W])
                 [0..<nat H] ?hdr)
      \<and> ?P (fold (\<lambda>h. fold (\<lambda>w. fold (\<lambda>c file. file @ ?g h w c) [0..<3]) [0..<nat W])
                 [0..<nat H] ?hdr)"
    by (intro fold_checked [where P = ?P] row) simp_all
  then have enc: "pfm_encode t
        = Inr (fold (\<lambda>h. fold (\<lambda>w. fold (\<lambda>c file. file @ ?g h w c) [0..<3]) [0..<nat W]) [0..<nat H] ?hdr)"
    unfolding pfm_encode_def Let_def using assms(1) by simp
  have "fold (\<lambda>h. fold (\<lambda>w. fold (\<lambda>c file. file @ ?g h w c) [0..<3]) [0..<nat W]) [0..<nat H] ?hdr
        = ?hdr @ concat (map (\<lambda>h. concat (map (\<lambda>w. concat (map (?g h w) [0..<3])) [0..<nat W])) [0..<nat H])"
    by (simp only: fold_append_concat_fun)
  also have "concat (map (\<lambda>h. concat (map (\<lambda>w. concat (map (?g h w) [0..<3])) [0..<nat W])) [0..<nat H])
             = concat (map float_to_bytes
               (concat (map (\<lambda>h. concat (map (\<lambda>w. map (\<lambda>c. data t ! ((nat H - 1 - h) * (nat W * 3) + (w * 3 + c))) [0..<3]) [0..<nat W]))
                  [0..<nat H])))"
  proof -
    have c: "concat (map (?g h w) [0..<3])
             = concat (map float_to_bytes (map (\<lambda>c. data t ! ((nat H - 1 - h) * (nat W * 3) + (w * 3 + c))) [0..<3]))" for h w
      by (simp only: map_map comp_def add.assoc)
    have w: "concat (map (\<lambda>w. concat (map (?g h w) [0..<3])) [0..<nat W])
             = concat (map float_to_bytes (concat (map (\<lambda>w. map (\<lambda>c. data t ! ((nat H - 1 - h) * (nat W * 3) + (w * 3 + c))) [0..<3]) [0..<nat W])))" for h
      by (simp only: c concat_map_nested)
    show ?thesis
      by (simp only: w concat_map_nested)
  qed
  also have "\<dots> = concat (map float_to_bytes
               (concat (map (\<lambda>h. map (\<lambda>j. data t ! ((nat H - 1 - h) * (nat W * 3) + j)) [0..<nat W * 3])
                  [0..<nat H])))"
    by (simp only: map_upt_blocks [of "\<lambda>j. data t ! (_ + j)" 3 "nat W"])
  finally have body:
    "fold (\<lambda>h. fold (\<lambda>w. fold (\<lambda>c file. file @ ?g h w c) [0..<3]) [0..<nat W]) [0..<nat H] ?hdr
     = ?hdr @ concat (map float_to_bytes
               (concat (map (\<lambda>h. map (\<lambda>j. data t ! ((nat H - 1 - h) * (nat W * 3) + j)) [0..<nat W * 3])
                  [0..<nat H])))" .
  show ?thesis unfolding enc body by (simp only: append_assoc)
qed

text \<open>A first load outside the buffer decides the whole run.\<close>

lemma pfm_encode_outside:
  assumes "dims t = [H, W, 3]" and "0 < H" and "0 < W" and "pfm_index H W 3 0 0 0 < 0"
  shows "pfm_encode t = Inl undefined_behaviour"
proof -
  have stop: "pfm_write_sample t H W 3 h w c (Inl e) = Inl e" for h w c e
    by (simp add: pfm_write_sample_def)
  have stop_c: "fold (\<lambda>c. pfm_write_sample t H W 3 h w c) cs (Inl e) = Inl e" for h w cs e
    by (rule fold_failed) (rule stop)
  have stop_w: "fold (\<lambda>w. fold (\<lambda>c. pfm_write_sample t H W 3 h w c) cs) ws (Inl e) = Inl e"
    for h cs ws e
    by (rule fold_failed) (rule stop_c)
  have first: "pfm_write_sample t H W 3 0 0 0 (Inr out) = Inl undefined_behaviour" for out
    using assms(4) by (simp add: pfm_write_sample_def tensor_get_def)
  have first_c: "fold (\<lambda>c. pfm_write_sample t H W 3 0 0 c) [0..<3] (Inr out)
                 = Inl undefined_behaviour" for out
    by (intro fold_upt_failed first stop) simp
  have first_w: "fold (\<lambda>w. fold (\<lambda>c. pfm_write_sample t H W 3 0 w c) [0..<3]) [0..<nat W] (Inr out)
                 = Inl undefined_behaviour" for out
    using assms(3) by (intro fold_upt_failed first_c stop_c) simp
  have "fold (\<lambda>h. fold (\<lambda>w. fold (\<lambda>c. pfm_write_sample t H W 3 h w c) [0..<3]) [0..<nat W])
          [0..<nat H] (Inr out) = Inl undefined_behaviour" for out
    using assms(2) by (intro fold_upt_failed first_w stop_w) simp
  then show ?thesis
    unfolding pfm_encode_def Let_def using assms(1) by simp
qed

lemma flat_length:
  "(\<And>x. x \<in> set xs \<Longrightarrow> length (f x) = n) \<Longrightarrow> length (concat (map f xs)) = length xs * n"
  by (induction xs) simp_all

lemma bytes_length: "length (concat (map float_to_bytes xs)) = 4 * length xs"
  by (induction xs) (simp_all add: float_to_bytes_length)

lemma pfm_decode_encode:
  assumes dims: "dims t = [H, W, 3]" and fmt: "format t = ''hwc''"
    and H: "0 < H" "H \<le> INT_MAX" and W: "0 < W" "W \<le> INT_MAX"
    and fits: "H * W * 3 \<le> INT_MAX"
    and len: "length (data t) = nat (H * W * 3)"
    and one: "strtof env ''-1.0'' = Some f_minus_one"
  shows "\<exists>bytes. pfm_encode t = Inr bytes
           \<and> pfm_decode env bytes = Inr (t\<lparr>data := map (\<lambda>x. fmul env x f_one) (data t)\<rparr>)"
proof -
  let ?WC = "nat W * 3"
  let ?row = "\<lambda>h. map (\<lambda>j. data t ! ((nat H - 1 - h) * ?WC + j)) [0..<?WC]"
  let ?samples = "concat (map ?row [0..<nat H])"
  let ?body = "concat (map float_to_bytes ?samples)"
  let ?bytes = "''PF'' @ [newline] @ put_int W @ '' '' @ put_int H @ [newline]
                @ ''-1.0'' @ newline # ?body"
  have enc: "pfm_encode t = Inr ?bytes"
    using pfm_encode_body [OF dims H(1) W(1) fits len] by simp
  have hdr: "pfm_header env (istream_open ?bytes)
             = Inr (3, W, H, f_minus_one, \<lparr>buf = ?body, failbit = False, eofbit = False\<rparr>)"
    using H W one float_token_minus_one [of ?body]
    by (intro pfm_header_text) (simp_all add: isspace_def)
  have slen: "length ?samples = nat H * ?WC"
    using flat_length [of "[0..<nat H]" ?row ?WC] by simp
  have blen: "length ?body = 4 * (nat H * ?WC)"
    by (simp only: bytes_length slen)
  have n4: "nat (H * W * 3 * 4) = 4 * (nat H * ?WC)"
    using H W by (simp add: nat_mult_distrib)
  from pfm_decode_complete [OF hdr float_order_examples(2) W(1) H(1) fits] blen n4
  obtain d where
    dec: "pfm_decode env ?bytes = Inr \<lparr>dims = [H, W, 3], format = ''hwc'', data = d\<rparr>"
    and dlen: "length d = nat H * ?WC"
    and vals: "\<forall>h<nat H. \<forall>j<?WC. d ! ((nat H - 1 - h) * ?WC + j)
                 = fmul env (sample_at ?body (h * ?WC + j)) (fabs f_minus_one)"
    by auto
  have tlen: "length (data t) = nat H * ?WC"
    using len H W by (simp add: nat_mult_distrib)
  have el: "d ! i = fmul env (data t ! i) f_one" if i: "i < nat H * ?WC" for i
  proof -
    have WC: "0 < ?WC" using W by simp
    define r where "r = i div ?WC"
    define j where "j = i mod ?WC"
    define h where "h = nat H - 1 - r"
    have r: "r < nat H" unfolding r_def using i by (rule less_mult_imp_div_less)
    have j: "j < ?WC" using WC by (simp add: j_def)
    have i_eq: "i = r * ?WC + j" unfolding r_def j_def by (rule div_mult_mod_eq [symmetric])
    have h: "h < nat H" and hr: "nat H - 1 - h = r" using r by (simp_all add: h_def)
    have "h * ?WC + j < nat H * ?WC"
    proof -
      have "h * ?WC + j < h * ?WC + ?WC" using j by simp
      also have "\<dots> = (h + 1) * ?WC" by simp
      also have "\<dots> \<le> nat H * ?WC" using h by (intro mult_le_mono1) simp
      finally show ?thesis .
    qed
    then have "sample_at ?body (h * ?WC + j) = ?samples ! (h * ?WC + j)"
      using sample_at_concat [of "h * ?WC + j" ?samples "[]"] slen by simp
    also have "\<dots> = ?row ([0..<nat H] ! h) ! j"
      using h j by (intro flat_nth) simp_all
    also have "\<dots> = data t ! (r * ?WC + j)"
      using h j hr by simp
    finally have "sample_at ?body (h * ?WC + j) = data t ! i" using i_eq by simp
    moreover have "d ! ((nat H - 1 - h) * ?WC + j)
                   = fmul env (sample_at ?body (h * ?WC + j)) (fabs f_minus_one)"
      using vals h j by blast
    ultimately show ?thesis using hr i_eq by (simp add: float_order_examples)
  qed
  have d: "d = map (\<lambda>x. fmul env x f_one) (data t)"
    using dlen tlen el by (intro nth_equalityI) simp_all
  have "t\<lparr>data := d\<rparr> = \<lparr>dims = [H, W, 3], format = ''hwc'', data = d\<rparr>"
    using dims fmt by (cases t) simp
  then have "pfm_decode env ?bytes = Inr (t\<lparr>data := map (\<lambda>x. fmul env x f_one) (data t)\<rparr>)"
    using dec d by simp
  with enc show ?thesis by blast
qed

text \<open>
  C3, amended. A tensor of shape \<open>[H,W,3]\<close> in height-width-channel order with \<open>H>0\<close>,
  \<open>W>0\<close> and at most \<open>INT_MAX\<close> elements, saved by \<open>saveImagePFM\<close> and loaded again by
  \<open>loadImagePFM\<close>, comes back with the same shape and with every element \<open>x\<close> as
  \<open>x * 1.0f\<close>: the encoder writes the scale \<open>-1.0\<close>, so the multiplier of the decoder is
  exactly \<open>1.0f\<close>. Where that multiplication returns \<open>x\<close> for the elements of the
  tensor, the tensor comes back unchanged. The library converts the text \<open>-1.0\<close> to the
  float \<open>-1.0\<close>.
\<close>

theorem pfm_roundtrip:
  assumes "dims t = [H, W, 3]" and "format t = ''hwc''"
    and "0 < H" and "0 < W" and "H * W * 3 \<le> INT_MAX"
    and "length (data t) = nat (H * W * 3)"
    and "strtof env ''-1.0'' = Some f_minus_one"
    and "writable fs filename"
  shows "\<exists>fs'. saveImagePFM fs t filename = Inr fs'
           \<and> loadImagePFM env fs' filename
               = Inr (t\<lparr>data := map (\<lambda>x. fmul env x f_one) (data t)\<rparr>)
           \<and> ((\<forall>x\<in>set (data t). fmul env x f_one = x)
                \<longrightarrow> loadImagePFM env fs' filename = Inr t)"
proof -
  have "H * 1 \<le> H * (W * 3)" using assms(3,4) by (intro mult_left_mono) simp_all
  then have H: "H \<le> INT_MAX" using assms(5) by (simp add: mult.assoc)
  have "W * 1 \<le> W * (H * 3)" using assms(3,4) by (intro mult_left_mono) simp_all
  then have W: "W \<le> INT_MAX" using assms(5) by (simp add: mult.assoc mult.left_commute)
  from pfm_decode_encode [OF assms(1-3) H assms(4) W assms(5-7)]
  obtain bytes where enc: "pfm_encode t = Inr bytes"
    and dec: "pfm_decode env bytes = Inr (t\<lparr>data := map (\<lambda>x. fmul env x f_one) (data t)\<rparr>)"
    by blast
  let ?fs = "fs\<lparr>contents := (contents fs)(filename := Some bytes)\<rparr>"
  have "\<not> bad_shape t" using assms(1,2) by (simp add: bad_shape_def ndims_def)
  then have save: "saveImagePFM fs t filename = Inr ?fs"
    using assms(8) enc by (simp add: saveImagePFM_def)
  have load: "loadImagePFM env ?fs filename
                   = Inr (t\<lparr>data := map (\<lambda>x. fmul env x f_one) (data t)\<rparr>)"
    using dec by (simp add: loadImagePFM_def)
  have "map (\<lambda>x. fmul env x f_one) (data t) = data t" if "\<forall>x\<in>set (data t). fmul env x f_one = x"
    using that by (simp add: map_idI)
  then have "(\<forall>x\<in>set (data t). fmul env x f_one = x) \<longrightarrow> loadImagePFM env ?fs filename = Inr t"
    using load by simp
  with save load show ?thesis by blast
qed

theorem pfm_roundtrip_witness:
  "\<exists>fs'. saveImagePFM example_fs white_pixel ''out.pfm'' = Inr fs'
       \<and> loadImagePFM example_env fs' ''out.pfm'' = Inr white_pixel"
proof -
  have "white_pixel\<lparr>data := map (\<lambda>x. fmul example_env x f_one) (data white_pixel)\<rparr> = white_pixel"
    by (simp add: white_pixel_def example_ops)
  moreover have "\<exists>fs'. saveImagePFM example_fs white_pixel ''out.pfm'' = Inr fs'
           \<and> loadImagePFM example_env fs' ''out.pfm''
               = Inr (white_pixel\<lparr>data := map (\<lambda>x. fmul example_env x f_one) (data white_pixel)\<rparr>)
           \<and> ((\<forall>x\<in>set (data white_pixel). fmul example_env x f_one = x)
                \<longrightarrow> loadImagePFM example_env fs' ''out.pfm'' = Inr white_pixel)"
    by (rule pfm_roundtrip [of white_pixel 1 1 example_env example_fs "''out.pfm''"])
      (simp_all add: white_pixel_def INT_MAX_def example_strtof example_fs_def)
  ultimately show ?thesis by auto
qed

text \<open>
  C3 as stated fails where the element count leaves the range of \<open>int\<close>. The tensor
  \<open>black_sheet\<close> has the shape \<open>[30000, 30000, 3]\<close>, the order \<open>hwc\<close> and all its
  2700000000 elements. In \<open>saveImagePFM\<close> the index of the first element read,
  2699910000, wraps around to -1595057296 in \<open>int\<close>: the load on line 151 is outside the
  buffer, and there is no file to decode.
\<close>

theorem pfm_roundtrip_counterexample:
  "dims black_sheet = [30000, 30000, 3] \<and> format black_sheet = ''hwc''
   \<and> length (data black_sheet) = nat (30000 * 30000 * 3)
   \<and> writable example_fs ''out.pfm''
   \<and> saveImagePFM example_fs black_sheet ''out.pfm'' = Inl undefined_behaviour
   \<and> (\<nexists>fs'. saveImagePFM example_fs black_sheet ''out.pfm'' = Inr fs')"
proof -
  have d: "dims black_sheet = [30000, 30000, 3]" and f: "format black_sheet = ''hwc''"
    by (simp_all add: black_sheet_def)
  have l: "length (data black_sheet) = nat (30000 * 30000 * 3)"
    by (simp add: black_sheet_def)
  have w: "writable example_fs ''out.pfm''" by (simp add: example_fs_def)
  have "pfm_encode black_sheet = Inl undefined_behaviour"
    using d by (rule pfm_encode_outside) (simp_all add: huge_index)
  moreover have "\<not> bad_shape black_sheet" using d f by (simp add: bad_shape_def ndims_def)
  ultimately have save: "saveImagePFM example_fs black_sheet ''out.pfm'' = Inl undefined_behaviour"
    using w by (simp add: saveImagePFM_def)
  then have none: "\<nexists>fs'. saveImagePFM example_fs black_sheet ''out.pfm'' = Inr fs'" by simp
  show ?thesis by (intro conjI d f l w save none)
qed

section \<open>Properties of the byte encoder and of the save dispatch\<close>

lemma ppm_channel_range: "0 \<le> ppm_channel env x \<and> ppm_channel env x \<le> 255"
  by (simp add: ppm_channel_def Let_def)

lemma ppm_byte_no_wrap: "of_char (char_of (nat (ppm_channel env x)) :: char) = nat (ppm_channel env x)"
proof -
  have "nat (ppm_channel env x) < 256" using ppm_channel_range [of env x] by linarith
  then show ?thesis by simp
qed

lemma fileExtensionOf_pfm: "fileExtensionOf (base @ ''.pfm'') = Inr ''pfm''"
proof -
  have "rfind (base @ ''.pfm'') (CHR ''.'') = Some (length base)"
    by (simp add: rfind_def)
  then show ?thesis by (simp add: fileExtensionOf_def)
qed

lemma saveImage_pfm: "saveImage exr env fs img (base @ ''.pfm'') = saveImagePPM env fs img (base @ ''.pfm'')"
  by (simp add: saveImage_def fileExtensionOf_pfm)

lemma small_ints:
  "int_mul 1 1 = 1" "int_mul 0 3 = 0" "int_add 0 0 = 0" "int_add 0 1 = 1" "int_add 0 2 = 2"
  "int_sub 1 1 = 0" "int_sub 0 0 = 0" "int_mul 0 1 = 0"
  by (simp_all add: int_add_def int_sub_def int_mul_def wrap_int_def)

lemma ppm_encode_white:
  "ppm_encode example_env white_pixel
   = Inr (''P6'' @ [newline] @ ''1 1'' @ [newline] @ ''255'' @ [newline] @ [CHR 0xFF, CHR 0xFF, CHR 0xFF])"
proof -
  have c: "ppm_channel example_env f_one = 255"
    by (simp add: ppm_channel_def example_env_def float_literals)
  have u: "[0..<3] = [0, 1, 2]" by (simp add: numeral_3_eq_3)
  have b: "char_of (255 :: nat) = CHR 0xFF" by (simp add: char_of_def bit_Suc_0_iff)
  show ?thesis
    by (simp add: ppm_encode_def ppm_write_sample_def tensor_get_def small_ints white_pixel_def
          put_int_examples u c b)
qed

lemma pfm_encode_white:
  "pfm_encode white_pixel
   = Inr (''PF'' @ [newline] @ ''1 1'' @ [newline] @ ''-1.0'' @ [newline]
     @ concat (map float_to_bytes [f_one, f_one, f_one]))"
proof -
  have u: "[0..<3] = [0, 1, 2]" by (simp add: numeral_3_eq_3)
  show ?thesis
    by (simp add: pfm_encode_def pfm_write_sample_def pfm_index_def tensor_get_def small_ints
          white_pixel_def put_int_examples u)
qed

text \<open>
  C1 fails on the code. \<open>saveImage\<close> with the extension \<open>pfm\<close> calls \<open>saveImagePPM\<close>:
  for the tensor of one white pixel and the name \<open>out.pfm\<close> it writes the PPM bytes
  \<open>P6 1 1 255\<close> and three bytes \<open>0xFF\<close>, where \<open>saveImagePFM\<close> writes \<open>PF 1 1 -1.0\<close> and
  twelve bytes.
\<close>

theorem saveImage_pfm_writes_ppm:
  "written (saveImage None example_env example_fs white_pixel ''out.pfm'') ''out.pfm''
     = Some (''P6'' @ [newline] @ ''1 1'' @ [newline] @ ''255'' @ [newline]
             @ [CHR 0xFF, CHR 0xFF, CHR 0xFF])
   \<and> written (saveImagePFM example_fs white_pixel ''out.pfm'') ''out.pfm''
     = Some (''PF'' @ [newline] @ ''1 1'' @ [newline] @ ''-1.0'' @ [newline]
             @ concat (map float_to_bytes [f_one, f_one, f_one]))
   \<and> written (saveImage None example_env example_fs white_pixel ''out.pfm'') ''out.pfm''
     \<noteq> written (saveImagePFM example_fs white_pixel ''out.pfm'') ''out.pfm''"
proof -
  have shape: "\<not> bad_shape white_pixel"
    by (simp add: bad_shape_def ndims_def white_pixel_def)
  have w: "writable example_fs ''out.pfm''" by (simp add: example_fs_def)
  have "saveImage None example_env example_fs white_pixel ''out.pfm''
        = saveImagePPM example_env example_fs white_pixel ''out.pfm''"
    using saveImage_pfm [of None example_env example_fs white_pixel "''out''"] by simp
  then have a: "written (saveImage None example_env example_fs white_pixel ''out.pfm'') ''out.pfm''
        = Some (''P6'' @ [newline] @ ''1 1'' @ [newline] @ ''255'' @ [newline]
                @ [CHR 0xFF, CHR 0xFF, CHR 0xFF])"
    using shape w by (simp add: saveImagePPM_def written_def ppm_encode_white)
  have b: "written (saveImagePFM example_fs white_pixel ''out.pfm'') ''out.pfm''
        = Some (''PF'' @ [newline] @ ''1 1'' @ [newline] @ ''-1.0'' @ [newline]
                @ concat (map float_to_bytes [f_one, f_one, f_one]))"
    using shape w by (simp add: saveImagePFM_def written_def pfm_encode_white)
  show ?thesis
    unfolding a b by simp
qed

text \<open>
  C5 fails on the code for large samples. The byte is always within 0 and 255
  (\<open>ppm_channel_range\<close>), but the clamp comes after the conversion to \<open>int\<close>: for
  \<open>x = +inf\<close>, which is \<open>>= 1\<close>, the product \<open>pow(x, 1/2.2) * 255\<close> is \<open>+inf\<close>, its
  conversion yields \<open>INT_MIN\<close> on x86, and the byte is 0, not 255.
\<close>

theorem ppm_infinity_byte:
  "float_ge f_inf f_one \<and> ppm_channel example_env f_inf = 0"
  by (simp add: ppm_channel_def example_env_def float_literals float_order INT_MIN_def)

section \<open>Further properties\<close>

text \<open>
  X1. Whatever the float operations return, the value \<open>saveImagePPM\<close> passes to
  \<open>file.put\<close> is between 0 and 255, and the byte written is that value: nothing wraps.
\<close>

theorem ppm_byte_in_range:
  "0 \<le> ppm_channel env x \<and> ppm_channel env x \<le> 255
   \<and> of_char (char_of (nat (ppm_channel env x)) :: char) = nat (ppm_channel env x)"
  using ppm_channel_range [of env x] ppm_byte_no_wrap [of env x] by simp

text \<open>
  X2. \<open>loadImage\<close> on a name with the extension \<open>pfm\<close> is \<open>loadImagePFM\<close>, with or
  without the EXR codec.
\<close>

theorem loadImage_pfm:
  "loadImage exr env fs (base @ ''.pfm'') = loadImagePFM env fs (base @ ''.pfm'')"
  by (simp add: loadImage_def fileExtensionOf_pfm)

text \<open>
  X3. A file name without a \<open>'.'\<close> has no extension: \<open>fileExtensionOf\<close>, \<open>loadImage\<close>
  and \<open>saveImage\<close> throw \<open>std::invalid_argument\<close> with the message "filename has no
  extension".
\<close>

theorem no_extension_rejected:
  assumes "CHR ''.'' \<notin> set filename"
  shows "fileExtensionOf filename = Inl (invalid_argument ''filename has no extension'')
       \<and> loadImage exr env fs filename = Inl (invalid_argument ''filename has no extension'')
       \<and> saveImage exr env fs img filename = Inl (invalid_argument ''filename has no extension'')"
  using assms by (simp add: fileExtensionOf_def rfind_def loadImage_def saveImage_def)

theorem no_extension_rejected_witness:
  "fileExtensionOf ''noext'' = Inl (invalid_argument ''filename has no extension'')
   \<and> loadImage None example_env example_fs ''noext''
       = Inl (invalid_argument ''filename has no extension'')
   \<and> saveImage None example_env example_fs white_pixel ''noext''
       = Inl (invalid_argument ''filename has no extension'')"
  using no_extension_rejected [of "''noext''" None example_env example_fs white_pixel] by simp

text \<open>
  X4. A file whose first token is neither \<open>PF\<close> nor \<open>Pf\<close> is rejected with
  \<open>std::runtime_error\<close> "invalid PFM image".
\<close>

theorem wrong_magic_rejected:
  assumes "contents fs filename = Some bytes"
    and "fst (get_string (istream_open bytes)) \<noteq> ''PF''"
    and "fst (get_string (istream_open bytes)) \<noteq> ''Pf''"
  shows "loadImagePFM env fs filename = Inl (runtime_error ''invalid PFM image'')"
proof -
  obtain ident s1 where g: "get_string (istream_open bytes) = (ident, s1)"
    by (cases "get_string (istream_open bytes)")
  with assms(2,3) have "ident \<noteq> ''PF''" and "ident \<noteq> ''Pf''" by simp_all
  then have "pfm_tokens env (istream_open bytes) = Inl (runtime_error ''invalid PFM image'')"
    using g by (simp add: pfm_tokens_def)
  then show ?thesis
    using assms(1) by (simp add: loadImagePFM_def pfm_decode_def pfm_header_def)
qed

theorem wrong_magic_rejected_witness:
  "loadImagePFM example_env example_fs ''magic.pfm'' = Inl (runtime_error ''invalid PFM image'')"
proof -
  have "fst (get_string (istream_open (''PX'' @ [newline] @ ''1 1'' @ [newline] @ ''-1.0'' @ [newline])))
        = ''PX''"
    by (simp add: get_string_def sentry_def good_def istream_open_def isspace_def newline_def)
  then show ?thesis
    using wrong_magic_rejected [of example_fs "''magic.pfm''" _ example_env]
    by (simp add: example_fs_def)
qed

text \<open>
  X5. A path that cannot be opened for reading makes \<open>loadImagePFM\<close> throw
  \<open>std::runtime_error\<close> with the message "cannot open file" and the quoted name.
\<close>

theorem missing_file_rejected:
  assumes "contents fs filename = None"
  shows "loadImagePFM env fs filename
         = Inl (runtime_error (''cannot open file '' @ [quote] @ filename @ [quote]))"
  using assms by (simp add: loadImagePFM_def)

theorem missing_file_rejected_witness:
  "loadImagePFM example_env example_fs ''none.pfm''
   = Inl (runtime_error (''cannot open file '' @ [quote] @ ''none.pfm'' @ [quote]))"
  using missing_file_rejected [of example_fs "''none.pfm''" example_env]
  by (simp add: example_fs_def)

text \<open>
  X6. Both encoders refuse a tensor that does not have three dimensions, three channels
  and the axis order \<open>hwc\<close> with \<open>std::invalid_argument\<close> "image must have 3 channels",
  before any file is opened: the file system does not matter.
\<close>

theorem bad_shape_rejected:
  assumes "ndims img \<noteq> 3 \<or> dims img ! 2 \<noteq> 3 \<or> format img \<noteq> ''hwc''"
  shows "saveImagePFM fs img filename = Inl (invalid_argument ''image must have 3 channels'')
       \<and> saveImagePPM env fs img filename = Inl (invalid_argument ''image must have 3 channels'')"
  using assms by (simp add: saveImagePFM_def saveImagePPM_def bad_shape_def)

theorem bad_shape_rejected_witness:
  "saveImagePFM example_fs (white_pixel\<lparr>format := ''chw''\<rparr>) ''out.pfm''
     = Inl (invalid_argument ''image must have 3 channels'')
   \<and> saveImagePPM example_env example_fs (white_pixel\<lparr>format := ''chw''\<rparr>) ''out.pfm''
     = Inl (invalid_argument ''image must have 3 channels'')"
  using bad_shape_rejected [of "white_pixel\<lparr>format := ''chw''\<rparr>" example_fs "''out.pfm''" example_env]
  by simp

end
